theory Spec2Isabelle
  imports Main "HOL-Library.Word"
begin

unbundle bit_operations_syntax

section \<open>libspc/serialization.c: the data model\<close>

text \<open>
  Bytes are \<open>8 word\<close>, the 32-bit and 64-bit fields of the wire format are words.
  Quantities of type \<open>size_t\<close> that count bytes or elements held in memory
  (\<open>bytes_written\<close>, \<open>len\<close>, \<open>num_ports\<close>, pointer differences) are natural
  numbers: they are bounded by the address space and never wrap. Every narrowing to
  \<open>uint32_t\<close> that the source performs is written out as \<open>of_nat\<close> or \<open>ucast\<close>.
\<close>

type_synonym byte = "8 word"
type_synonym uint32 = "32 word"
type_synonym uint64 = "64 word"

text \<open>\<open>spc_port_t\<close>: a port name and the disposition of the right.\<close>

record spc_port =
  name :: uint32
  type :: uint32

text \<open>
  \<open>spc_value_t\<close> is a tag and a union; the tag selects the member of the union.
  A C string is the list of its bytes before the terminating NUL. A data blob
  (\<open>data.ptr\<close>, \<open>data.size\<close>) is the list of its \<open>size\<close> bytes. A UUID is the
  16 bytes behind \<open>value.ptr\<close>, kept as one 128-bit word. \<open>i64\<close> and \<open>dbl\<close> are kept
  as the 64 bits that \<open>memcpy\<close> moves. \<open>spc_dictionary_t\<close> is the field \<open>num_items\<close>
  and the linked list \<open>items\<close>, first item first. \<open>SPC_OTHER t\<close> stands for a value
  whose tag \<open>t\<close> is none of the thirteen that the switch of
  \<open>spc_serialize_value\<close> names.
\<close>

datatype spc_value =
    SPC_NULL
  | SPC_BOOL uint64
  | SPC_UINT64 uint64
  | SPC_INT64 uint64
  | SPC_DOUBLE uint64
  | SPC_STRING "byte list"
  | SPC_ARRAY "spc_value list"
  | SPC_DICT "nat \<times> (byte list \<times> spc_value) list"
  | SPC_FD spc_port
  | SPC_SEND_PORT spc_port
  | SPC_RECV_PORT spc_port
  | SPC_UUID "128 word"
  | SPC_DATA "byte list"
  | SPC_OTHER uint32

type_synonym spc_array = "spc_value list"
type_synonym spc_dictionary_items = "(byte list \<times> spc_value) list"
type_synonym spc_dictionary = "nat \<times> spc_dictionary_items"

text \<open>
  Modelled from the spec: the numeric values of the tags are declared in a header that
  is not part of the sources at hand. The spec treats them as a closed enumeration of
  distinct 32-bit constants fixed by the peer; the values below are the ones of the
  peer's wire format. The theorems use only that they are pairwise distinct.
\<close>

definition SPC_TYPE_NULL :: uint32 where "SPC_TYPE_NULL = 0x1000"
definition SPC_TYPE_BOOL :: uint32 where "SPC_TYPE_BOOL = 0x2000"
definition SPC_TYPE_INT64 :: uint32 where "SPC_TYPE_INT64 = 0x3000"
definition SPC_TYPE_UINT64 :: uint32 where "SPC_TYPE_UINT64 = 0x4000"
definition SPC_TYPE_DOUBLE :: uint32 where "SPC_TYPE_DOUBLE = 0x5000"
definition SPC_TYPE_DATA :: uint32 where "SPC_TYPE_DATA = 0x8000"
definition SPC_TYPE_STRING :: uint32 where "SPC_TYPE_STRING = 0x9000"
definition SPC_TYPE_UUID :: uint32 where "SPC_TYPE_UUID = 0xa000"
definition SPC_TYPE_FD :: uint32 where "SPC_TYPE_FD = 0xb000"
definition SPC_TYPE_SEND_PORT :: uint32 where "SPC_TYPE_SEND_PORT = 0xd000"
definition SPC_TYPE_ARRAY :: uint32 where "SPC_TYPE_ARRAY = 0xe000"
definition SPC_TYPE_DICT :: uint32 where "SPC_TYPE_DICT = 0xf000"
definition SPC_TYPE_RECV_PORT :: uint32 where "SPC_TYPE_RECV_PORT = 0x15000"

lemmas SPC_TYPE_defs =
  SPC_TYPE_NULL_def SPC_TYPE_BOOL_def SPC_TYPE_INT64_def SPC_TYPE_UINT64_def
  SPC_TYPE_DOUBLE_def SPC_TYPE_DATA_def SPC_TYPE_STRING_def SPC_TYPE_UUID_def
  SPC_TYPE_FD_def SPC_TYPE_SEND_PORT_def SPC_TYPE_ARRAY_def SPC_TYPE_DICT_def
  SPC_TYPE_RECV_PORT_def

text \<open>\<open>value.type\<close>, the tag of a value.\<close>

fun value_type :: "spc_value \<Rightarrow> uint32" where
  "value_type SPC_NULL = SPC_TYPE_NULL"
| "value_type (SPC_BOOL b) = SPC_TYPE_BOOL"
| "value_type (SPC_UINT64 u) = SPC_TYPE_UINT64"
| "value_type (SPC_INT64 i) = SPC_TYPE_INT64"
| "value_type (SPC_DOUBLE d) = SPC_TYPE_DOUBLE"
| "value_type (SPC_STRING s) = SPC_TYPE_STRING"
| "value_type (SPC_ARRAY a) = SPC_TYPE_ARRAY"
| "value_type (SPC_DICT d) = SPC_TYPE_DICT"
| "value_type (SPC_FD p) = SPC_TYPE_FD"
| "value_type (SPC_SEND_PORT p) = SPC_TYPE_SEND_PORT"
| "value_type (SPC_RECV_PORT p) = SPC_TYPE_RECV_PORT"
| "value_type (SPC_UUID u) = SPC_TYPE_UUID"
| "value_type (SPC_DATA d) = SPC_TYPE_DATA"
| "value_type (SPC_OTHER t) = t"

text \<open>\<open>spc_message_t\<close>.\<close>

record spc_message =
  remote_port :: spc_port
  local_port :: spc_port
  msg_id :: uint32
  content :: spc_dictionary

section \<open>Bytes of an integer\<close>

text \<open>
  \<open>memcpy(writer->ptr, &val, n)\<close> stores the \<open>n\<close> bytes of \<open>val\<close> in the order of
  the machine, least significant byte first on the platforms of the library.
\<close>

fun le_bytes :: "nat \<Rightarrow> nat \<Rightarrow> byte list" where
  "le_bytes 0 x = []"
| "le_bytes (Suc n) x = of_nat (x mod 256) # le_bytes n (x div 256)"

fun le_nat :: "byte list \<Rightarrow> nat" where
  "le_nat [] = 0"
| "le_nat (b # bs) = unat b + 256 * le_nat bs"

definition uint32_bytes :: "uint32 \<Rightarrow> byte list" where
  "uint32_bytes v = le_bytes 4 (unat v)"

definition uint64_bytes :: "uint64 \<Rightarrow> byte list" where
  "uint64_bytes v = le_bytes 8 (unat v)"

definition uuid_bytes :: "128 word \<Rightarrow> byte list" where
  "uuid_bytes v = le_bytes 16 (unat v)"

section \<open>The writer\<close>

text \<open>
  \<open>writer_t\<close>: \<open>w_buf\<close> holds the bytes of \<open>[start, ptr)\<close>, so \<open>ptr - start\<close> is
  \<open>length (w_buf w)\<close>; \<open>w_cap\<close> is \<open>end - start\<close>; \<open>w_ports\<close> is the array \<open>ports\<close>,
  and \<open>num_ports\<close> is its length. \<open>realloc\<close> and \<open>malloc\<close> are taken to succeed.
\<close>

record writer =
  w_buf :: "byte list"
  w_cap :: nat
  w_ports :: "spc_port list"

definition spc_ensure_space :: "writer \<Rightarrow> nat \<Rightarrow> writer" where
  "spc_ensure_space w num_bytes =
     (if length (w_buf w) + num_bytes > w_cap w
      then w\<lparr>w_cap := w_cap w + num_bytes\<rparr>
      else w)"

definition spc_write :: "writer \<Rightarrow> byte list \<Rightarrow> writer \<times> nat" where
  "spc_write w bs =
     (let len = length bs;
          w1 = spc_ensure_space w len
      in (w1\<lparr>w_buf := w_buf w1 @ bs\<rparr>, len))"

definition spc_write_padded :: "writer \<Rightarrow> byte list \<Rightarrow> writer \<times> nat" where
  "spc_write_padded w bs =
     (let len = length bs;
          remainder = (4 - (len mod 4)) mod 4;
          w1 = spc_ensure_space w (len + remainder)
      in (w1\<lparr>w_buf := w_buf w1 @ bs @ replicate remainder 0\<rparr>, len + remainder))"

text \<open>\<open>strlen(str) + 1\<close> bytes: the string and its NUL.\<close>

definition spc_write_str :: "writer \<Rightarrow> byte list \<Rightarrow> writer \<times> nat" where
  "spc_write_str w str = spc_write_padded w (str @ [0])"

definition spc_write_uint32 :: "writer \<Rightarrow> uint32 \<Rightarrow> writer \<times> nat" where
  "spc_write_uint32 w val =
     (let w1 = spc_ensure_space w 4
      in (w1\<lparr>w_buf := w_buf w1 @ uint32_bytes val\<rparr>, 4))"

definition spc_write_uint64 :: "writer \<Rightarrow> uint64 \<Rightarrow> writer \<times> nat" where
  "spc_write_uint64 w val =
     (let w1 = spc_ensure_space w 8
      in (w1\<lparr>w_buf := w_buf w1 @ uint64_bytes val\<rparr>, 8))"

definition spc_write_int64 :: "writer \<Rightarrow> uint64 \<Rightarrow> writer \<times> nat" where
  "spc_write_int64 w val =
     (let w1 = spc_ensure_space w 8
      in (w1\<lparr>w_buf := w_buf w1 @ uint64_bytes val\<rparr>, 8))"

definition spc_write_double :: "writer \<Rightarrow> uint64 \<Rightarrow> writer \<times> nat" where
  "spc_write_double w val =
     (let w1 = spc_ensure_space w 8
      in (w1\<lparr>w_buf := w_buf w1 @ uint64_bytes val\<rparr>, 8))"

definition spc_write_port :: "writer \<Rightarrow> spc_port \<Rightarrow> writer" where
  "spc_write_port w port = w\<lparr>w_ports := w_ports w @ [port]\<rparr>"

text \<open>
  \<open>*(uint32_t* )(writer->start + bytesize_offset) = bytes_written\<close>: four bytes of the
  buffer are overwritten with the low 32 bits of \<open>bytes_written\<close>.
\<close>

definition patch_uint32 :: "writer \<Rightarrow> nat \<Rightarrow> nat \<Rightarrow> writer" where
  "patch_uint32 w off bytes_written =
     w\<lparr>w_buf := take off (w_buf w) @ uint32_bytes (of_nat bytes_written)
                 @ drop (off + 4) (w_buf w)\<rparr>"

section \<open>Serialization of values\<close>

text \<open>
  The loops of \<open>spc_write_array\<close> and \<open>spc_write_dict\<close> carry \<open>bytes_written\<close>; the
  dictionary loop follows the \<open>next\<close> pointers from \<open>dict->items\<close>.
\<close>

function (sequential) spc_serialize_value :: "writer \<Rightarrow> spc_value \<Rightarrow> writer \<times> nat"
  and spc_write_array :: "writer \<Rightarrow> spc_array \<Rightarrow> writer \<times> nat"
  and spc_write_array_loop :: "writer \<Rightarrow> spc_value list \<Rightarrow> nat \<Rightarrow> writer \<times> nat"
  and spc_write_dict :: "writer \<Rightarrow> spc_dictionary \<Rightarrow> writer \<times> nat"
  and spc_write_dict_loop :: "writer \<Rightarrow> spc_dictionary_items \<Rightarrow> nat \<Rightarrow> writer \<times> nat"
where
  "spc_serialize_value w SPC_NULL = spc_write_uint32 w SPC_TYPE_NULL"
| "spc_serialize_value w (SPC_BOOL b) =
     (let (w1, n1) = spc_write_uint32 w SPC_TYPE_BOOL;
          (w2, n2) = spc_write_uint32 w1 (ucast b)
      in (w2, n1 + n2))"
| "spc_serialize_value w (SPC_UINT64 u) =
     (let (w1, n1) = spc_write_uint32 w SPC_TYPE_UINT64;
          (w2, n2) = spc_write_uint64 w1 u
      in (w2, n1 + n2))"
| "spc_serialize_value w (SPC_INT64 i) =
     (let (w1, n1) = spc_write_uint32 w SPC_TYPE_INT64;
          (w2, n2) = spc_write_int64 w1 i
      in (w2, n1 + n2))"
| "spc_serialize_value w (SPC_DOUBLE d) =
     (let (w1, n1) = spc_write_uint32 w SPC_TYPE_DOUBLE;
          (w2, n2) = spc_write_double w1 d
      in (w2, n1 + n2))"
| "spc_serialize_value w (SPC_STRING str) =
     (let (w1, n1) = spc_write_uint32 w SPC_TYPE_STRING;
          (w2, n2) = spc_write_uint32 w1 (of_nat (length str + 1));
          (w3, n3) = spc_write_str w2 str
      in (w3, n1 + n2 + n3))"
| "spc_serialize_value w (SPC_ARRAY array) =
     (let (w1, n1) = spc_write_uint32 w SPC_TYPE_ARRAY;
          (w2, n2) = spc_write_array w1 array
      in (w2, n1 + n2))"
| "spc_serialize_value w (SPC_DICT dict) =
     (let (w1, n1) = spc_write_uint32 w SPC_TYPE_DICT;
          (w2, n2) = spc_write_dict w1 dict
      in (w2, n1 + n2))"
| "spc_serialize_value w (SPC_FD port) =
     (let (w1, n1) = spc_write_uint32 w SPC_TYPE_FD
      in (spc_write_port w1 port, n1))"
| "spc_serialize_value w (SPC_SEND_PORT port) =
     (let (w1, n1) = spc_write_uint32 w SPC_TYPE_SEND_PORT
      in (spc_write_port w1 port, n1))"
| "spc_serialize_value w (SPC_RECV_PORT port) =
     (let (w1, n1) = spc_write_uint32 w SPC_TYPE_RECV_PORT
      in (spc_write_port w1 port, n1))"
| "spc_serialize_value w (SPC_UUID u) =
     (let (w1, n1) = spc_write_uint32 w SPC_TYPE_UUID;
          (w2, n2) = spc_write w1 (uuid_bytes u)
      in (w2, n1 + n2))"
| "spc_serialize_value w (SPC_DATA d) =
     (let (w1, n1) = spc_write_uint32 w SPC_TYPE_DATA;
          (w2, n2) = spc_write_uint32 w1 (of_nat (length d));
          (w3, n3) = spc_write_padded w2 d
      in (w3, n1 + n2 + n3))"
| "spc_serialize_value w (SPC_OTHER t) = spc_write_uint32 w t"
| "spc_write_array w array =
     (let bytesize_offset = length (w_buf w);
          (w1, _) = spc_write_uint32 w 0;
          (w2, n2) = spc_write_uint32 w1 (of_nat (length array));
          (w3, bytes_written) = spc_write_array_loop w2 array n2
      in (patch_uint32 w3 bytesize_offset bytes_written, bytes_written + 4))"
| "spc_write_array_loop w [] bytes_written = (w, bytes_written)"
| "spc_write_array_loop w (v # vs) bytes_written =
     (let (w1, n) = spc_serialize_value w v
      in spc_write_array_loop w1 vs (bytes_written + n))"
| "spc_write_dict w (num_items, items) =
     (let bytesize_offset = length (w_buf w);
          (w1, _) = spc_write_uint32 w 0;
          (w2, n2) = spc_write_uint32 w1 (of_nat num_items);
          (w3, bytes_written) = spc_write_dict_loop w2 items n2
      in (patch_uint32 w3 bytesize_offset bytes_written, bytes_written + 4))"
| "spc_write_dict_loop w [] bytes_written = (w, bytes_written)"
| "spc_write_dict_loop w ((key, v) # rest) bytes_written =
     (let (w1, n1) = spc_write_str w key;
          (w2, n2) = spc_serialize_value w1 v
      in spc_write_dict_loop w2 rest (bytes_written + n1 + n2))"
  by pat_completeness auto
termination
  by (relation "measure (\<lambda>x. case x of
          Inl (Inl (_, v)) \<Rightarrow> 2 * size v
        | Inl (Inr (_, a)) \<Rightarrow> 2 * size_list size a + 1
        | Inr (Inl (_, a, _)) \<Rightarrow> 2 * size_list size a
        | Inr (Inr (Inl (_, _, items))) \<Rightarrow> 2 * size_list (size_prod (\<lambda>x. 0) size) items + 1
        | Inr (Inr (Inr (_, items, _))) \<Rightarrow> 2 * size_list (size_prod (\<lambda>x. 0) size) items)")
     auto

section \<open>The reader\<close>

text \<open>
  How a decoding can end without returning: \<open>abort()\<close> in \<open>spc_read\<close>, the
  \<open>exit(-1)\<close> calls, \<open>strdup\<close> applied to the \<open>NULL\<close> that \<open>spc_read_str\<close> returns
  when it finds no NUL, and the read of a descriptor type at an address where the
  message buffer has no byte.
\<close>

datatype error =
    Abort_OOB_read
  | Exit_unsupported_value_type uint32
  | Exit_unsupported_descriptor_type byte
  | Exit_connection_interrupted
  | Crash_strdup_NULL
  | Crash_read_outside_buffer

text \<open>
  \<open>reader_t\<close>: \<open>r_mem\<close> holds the bytes from \<open>mach_msg->buf\<close> on, \<open>r_ptr\<close> and \<open>r_end\<close>
  are the offsets of \<open>ptr\<close> and \<open>end\<close> from \<open>mach_msg->buf\<close>; \<open>r_next_port\<close> is
  \<open>next_port\<close>, \<open>r_ports\<close> the array \<open>ports\<close>, whose length is \<open>num_ports\<close>.
\<close>

record reader =
  r_mem :: "byte list"
  r_end :: nat
  r_ptr :: nat
  r_next_port :: nat
  r_ports :: "spc_port list"

definition spc_read :: "reader \<Rightarrow> nat \<Rightarrow> error + (byte list \<times> reader)" where
  "spc_read r len =
     (if r_ptr r + len > r_end r then Inl Abort_OOB_read
      else Inr (take len (drop (r_ptr r) (r_mem r)), r\<lparr>r_ptr := r_ptr r + len\<rparr>))"

definition spc_read_uint64 :: "reader \<Rightarrow> error + (uint64 \<times> reader)" where
  "spc_read_uint64 r =
     (case spc_read r 8 of Inl e \<Rightarrow> Inl e
      | Inr (bs, r1) \<Rightarrow> Inr (of_nat (le_nat bs), r1))"

definition spc_read_int64 :: "reader \<Rightarrow> error + (uint64 \<times> reader)" where
  "spc_read_int64 r =
     (case spc_read r 8 of Inl e \<Rightarrow> Inl e
      | Inr (bs, r1) \<Rightarrow> Inr (of_nat (le_nat bs), r1))"

definition spc_read_double :: "reader \<Rightarrow> error + (uint64 \<times> reader)" where
  "spc_read_double r =
     (case spc_read r 8 of Inl e \<Rightarrow> Inl e
      | Inr (bs, r1) \<Rightarrow> Inr (of_nat (le_nat bs), r1))"

definition spc_read_uint32 :: "reader \<Rightarrow> error + (uint32 \<times> reader)" where
  "spc_read_uint32 r =
     (case spc_read r 4 of Inl e \<Rightarrow> Inl e
      | Inr (bs, r1) \<Rightarrow> Inr (of_nat (le_nat bs), r1))"

definition spc_read_padded :: "reader \<Rightarrow> nat \<Rightarrow> error + (byte list \<times> reader)" where
  "spc_read_padded r sz =
     (let remainder = (4 - (sz mod 4)) mod 4
      in spc_read r (sz + remainder))"

text \<open>\<open>memchr(p, 0, n)\<close> on the \<open>n\<close> bytes \<open>bs\<close> at \<open>p\<close>: the offset of the first NUL.\<close>

fun memchr0 :: "byte list \<Rightarrow> nat option" where
  "memchr0 [] = None"
| "memchr0 (b # bs) = (if b = 0 then Some 0 else map_option Suc (memchr0 bs))"

text \<open>The result is \<open>None\<close> for the \<open>NULL\<close> pointer, else the bytes at the pointer.\<close>

definition spc_read_str :: "reader \<Rightarrow> error + (byte list option \<times> reader)" where
  "spc_read_str r =
     (case memchr0 (take (r_end r - r_ptr r) (drop (r_ptr r) (r_mem r))) of
        None \<Rightarrow> Inr (None, r)
      | Some k \<Rightarrow>
          (case spc_read_padded r (k + 1) of Inl e \<Rightarrow> Inl e
           | Inr (bs, r1) \<Rightarrow> Inr (Some bs, r1)))"

text \<open>\<open>strdup\<close> copies up to the first NUL; on \<open>NULL\<close> it dereferences the null pointer.\<close>

definition strdup :: "byte list option \<Rightarrow> error + byte list" where
  "strdup p = (case p of None \<Rightarrow> Inl Crash_strdup_NULL
               | Some bs \<Rightarrow> Inr (takeWhile (\<lambda>b. b \<noteq> 0) bs))"

text \<open>
  Modelled from the spec: the macro \<open>SPC_NULL_PORT\<close> is declared in a header that is
  not part of the sources at hand; the spec says that the null port has name 0.
\<close>

definition SPC_NULL_PORT :: spc_port where
  "SPC_NULL_PORT = \<lparr>name = 0, type = 0\<rparr>"

definition spc_reader_next_port :: "reader \<Rightarrow> spc_port \<times> reader" where
  "spc_reader_next_port r =
     (if r_next_port r \<ge> length (r_ports r) then (SPC_NULL_PORT, r)
      else (r_ports r ! r_next_port r, r\<lparr>r_next_port := r_next_port r + 1\<rparr>))"

section \<open>Deserialization of values\<close>

text \<open>
  Modelled from the spec: \<open>spc_array_create\<close>, \<open>spc_array_set_value\<close> and
  \<open>spc_dictionary_create\<close> are defined in files that are not part of the sources at
  hand. The spec: \<open>array_set(a, i, v)\<close> grows the sequence so index \<open>i\<close> is valid,
  filling gaps with NULL, and installs \<open>v\<close>; a created container is empty.
\<close>

definition spc_array_create :: spc_array where
  "spc_array_create = []"

definition spc_array_set_value :: "spc_array \<Rightarrow> nat \<Rightarrow> spc_value \<Rightarrow> spc_array" where
  "spc_array_set_value a i v =
     (if i < length a then a[i := v]
      else a @ replicate (i - length a) SPC_NULL @ [v])"

definition spc_dictionary_create :: spc_dictionary where
  "spc_dictionary_create = (0, [])"

text \<open>
  The decoder recurses as deep as the containers of the input nest, which the source
  leaves to the C stack. The first argument bounds that depth: \<open>None\<close> is the answer
  when the bound is used up, and \<open>spc_deserialize\<close> below passes a bound that is
  never used up. The result \<open>Some (Inl e)\<close> is the process ending with \<open>e\<close>,
  \<open>Some (Inr (v, r))\<close> is the return of \<open>v\<close> with the reader advanced to \<open>r\<close>.
\<close>

function spc_deserialize_value :: "nat \<Rightarrow> reader \<Rightarrow> (error + spc_value \<times> reader) option"
  and spc_deserialize_array :: "nat \<Rightarrow> reader \<Rightarrow> (error + spc_array \<times> reader) option"
  and spc_deserialize_array_loop ::
    "nat \<Rightarrow> reader \<Rightarrow> nat \<Rightarrow> nat \<Rightarrow> spc_array \<Rightarrow> (error + spc_array \<times> reader) option"
  and spc_deserialize_dict :: "nat \<Rightarrow> reader \<Rightarrow> (error + spc_dictionary \<times> reader) option"
  and spc_deserialize_dict_loop ::
    "nat \<Rightarrow> reader \<Rightarrow> nat \<Rightarrow> spc_dictionary \<Rightarrow> (error + spc_dictionary \<times> reader) option"
where
  "spc_deserialize_value 0 r = None"
| "spc_deserialize_value (Suc depth) r =
     (case spc_read_uint32 r of Inl e \<Rightarrow> Some (Inl e)
      | Inr (t, r1) \<Rightarrow>
          if t = SPC_TYPE_NULL then Some (Inr (SPC_NULL, r1))
          else if t = SPC_TYPE_BOOL then
            (case spc_read_uint32 r1 of Inl e \<Rightarrow> Some (Inl e)
             | Inr (b, r2) \<Rightarrow> Some (Inr (SPC_BOOL (ucast b), r2)))
          else if t = SPC_TYPE_UINT64 then
            (case spc_read_uint64 r1 of Inl e \<Rightarrow> Some (Inl e)
             | Inr (u, r2) \<Rightarrow> Some (Inr (SPC_UINT64 u, r2)))
          else if t = SPC_TYPE_INT64 then
            (case spc_read_int64 r1 of Inl e \<Rightarrow> Some (Inl e)
             | Inr (i, r2) \<Rightarrow> Some (Inr (SPC_INT64 i, r2)))
          else if t = SPC_TYPE_DOUBLE then
            (case spc_read_double r1 of Inl e \<Rightarrow> Some (Inl e)
             | Inr (d, r2) \<Rightarrow> Some (Inr (SPC_DOUBLE d, r2)))
          else if t = SPC_TYPE_STRING then
            (case spc_read_uint32 r1 of Inl e \<Rightarrow> Some (Inl e)
             | Inr (_, r2) \<Rightarrow>
                 (case spc_read_str r2 of Inl e \<Rightarrow> Some (Inl e)
                  | Inr (p, r3) \<Rightarrow>
                      (case strdup p of Inl e \<Rightarrow> Some (Inl e)
                       | Inr str \<Rightarrow> Some (Inr (SPC_STRING str, r3)))))
          else if t = SPC_TYPE_ARRAY then
            (case spc_deserialize_array depth r1 of None \<Rightarrow> None
             | Some (Inl e) \<Rightarrow> Some (Inl e)
             | Some (Inr (array, r2)) \<Rightarrow> Some (Inr (SPC_ARRAY array, r2)))
          else if t = SPC_TYPE_DICT then
            (case spc_deserialize_dict depth r1 of None \<Rightarrow> None
             | Some (Inl e) \<Rightarrow> Some (Inl e)
             | Some (Inr (dict, r2)) \<Rightarrow> Some (Inr (SPC_DICT dict, r2)))
          else if t = SPC_TYPE_SEND_PORT then
            (let (port, r2) = spc_reader_next_port r1
             in Some (Inr (SPC_SEND_PORT port, r2)))
          else if t = SPC_TYPE_RECV_PORT then
            (let (port, r2) = spc_reader_next_port r1
             in Some (Inr (SPC_RECV_PORT port, r2)))
          else if t = SPC_TYPE_UUID then
            (case spc_read r1 16 of Inl e \<Rightarrow> Some (Inl e)
             | Inr (bs, r2) \<Rightarrow> Some (Inr (SPC_UUID (of_nat (le_nat bs)), r2)))
          else if t = SPC_TYPE_DATA then
            (case spc_read_uint32 r1 of Inl e \<Rightarrow> Some (Inl e)
             | Inr (sz, r2) \<Rightarrow>
                 (case spc_read_padded r2 (unat sz) of Inl e \<Rightarrow> Some (Inl e)
                  | Inr (bs, r3) \<Rightarrow> Some (Inr (SPC_DATA (take (unat sz) bs), r3))))
          else Some (Inl (Exit_unsupported_value_type t)))"
| "spc_deserialize_array depth r =
     (case spc_read_uint32 r of Inl e \<Rightarrow> Some (Inl e)
      | Inr (_, r1) \<Rightarrow>
          (case spc_read_uint32 r1 of Inl e \<Rightarrow> Some (Inl e)
           | Inr (len, r2) \<Rightarrow>
               spc_deserialize_array_loop depth r2 0 (unat len) spc_array_create))"
| "spc_deserialize_array_loop depth r i len array =
     (if i < len then
        (case spc_deserialize_value depth r of None \<Rightarrow> None
         | Some (Inl e) \<Rightarrow> Some (Inl e)
         | Some (Inr (v, r1)) \<Rightarrow>
             spc_deserialize_array_loop depth r1 (i + 1) len (spc_array_set_value array i v))
      else Some (Inr (array, r)))"
| "spc_deserialize_dict depth r =
     (case spc_read_uint32 r of Inl e \<Rightarrow> Some (Inl e)
      | Inr (_, r1) \<Rightarrow>
          (case spc_read_uint32 r1 of Inl e \<Rightarrow> Some (Inl e)
           | Inr (n, r2) \<Rightarrow>
               spc_deserialize_dict_loop depth r2 0 (unat n, snd spc_dictionary_create)))"
| "spc_deserialize_dict_loop depth r i (num_items, items) =
     (if i < num_items then
        (case spc_read_str r of Inl e \<Rightarrow> Some (Inl e)
         | Inr (p, r1) \<Rightarrow>
             (case strdup p of Inl e \<Rightarrow> Some (Inl e)
              | Inr key \<Rightarrow>
                  (case spc_deserialize_value depth r1 of None \<Rightarrow> None
                   | Some (Inl e) \<Rightarrow> Some (Inl e)
                   | Some (Inr (v, r2)) \<Rightarrow>
                       spc_deserialize_dict_loop depth r2 (i + 1) (num_items, (key, v) # items))))
      else Some (Inr ((num_items, items), r)))"
  by pat_completeness auto
termination
  by (relation "measures
        [\<lambda>x. case x of Inl (Inl (d, _)) \<Rightarrow> d | Inl (Inr (d, _)) \<Rightarrow> d
              | Inr (Inl (d, _)) \<Rightarrow> d | Inr (Inr (Inl (d, _))) \<Rightarrow> d
              | Inr (Inr (Inr (d, _))) \<Rightarrow> d,
         \<lambda>x. case x of Inl (Inl _) \<Rightarrow> 0 | Inl (Inr _) \<Rightarrow> 2
              | Inr (Inl _) \<Rightarrow> 1 | Inr (Inr (Inl _)) \<Rightarrow> 2
              | Inr (Inr (Inr _)) \<Rightarrow> 1,
         \<lambda>x. case x of Inr (Inl (_, _, i, n, _)) \<Rightarrow> n - i
              | Inr (Inr (Inr (_, _, i, n, _))) \<Rightarrow> n - i
              | _ \<Rightarrow> 0]")
     auto

section \<open>The kernel message\<close>

text \<open>
  \<open>spc_mach_message_t\<close>: the header and the bytes \<open>buf\<close> that follow it. The fields of
  \<open>mach_msg_header_t\<close> that the source neither writes nor reads are left out.
\<close>

record mach_msg_header =
  msgh_bits :: uint32
  msgh_size :: uint32
  msgh_remote_port :: uint32
  msgh_local_port :: uint32
  msgh_id :: uint32

record spc_mach_message =
  header :: mach_msg_header
  buf :: "byte list"

text \<open>
  Modelled from the spec: the layout of the kernel structures and the macros on
  \<open>msgh_bits\<close> are declared in platform headers that are not part of the sources at
  hand; the spec calls them platform-defined. The sizes, the offsets of the fields of
  a descriptor and the macros below are the ones of the platform (64-bit, structures
  packed to 4 bytes): in every descriptor the type is the byte at offset 11; in a port
  descriptor the name is the first word and the disposition the byte at offset 10.
\<close>

definition sizeof_mach_msg_header :: nat where "sizeof_mach_msg_header = 24"
definition sizeof_mach_msg_body :: nat where "sizeof_mach_msg_body = 4"
definition sizeof_mach_msg_port_descriptor :: nat where "sizeof_mach_msg_port_descriptor = 12"
definition sizeof_mach_msg_ool_descriptor :: nat where "sizeof_mach_msg_ool_descriptor = 16"
definition sizeof_mach_msg_ool_ports_descriptor :: nat where
  "sizeof_mach_msg_ool_ports_descriptor = 16"

definition MACH_MSG_PORT_DESCRIPTOR :: byte where "MACH_MSG_PORT_DESCRIPTOR = 0"
definition MACH_MSG_OOL_DESCRIPTOR :: byte where "MACH_MSG_OOL_DESCRIPTOR = 1"
definition MACH_MSG_OOL_PORTS_DESCRIPTOR :: byte where "MACH_MSG_OOL_PORTS_DESCRIPTOR = 2"

definition MACH_MSGH_BITS_COMPLEX :: uint32 where "MACH_MSGH_BITS_COMPLEX = 0x80000000"

definition MACH_MSGH_BITS :: "uint32 \<Rightarrow> uint32 \<Rightarrow> uint32" where
  "MACH_MSGH_BITS remote local = remote OR push_bit 8 local"

definition MACH_MSGH_BITS_REMOTE :: "uint32 \<Rightarrow> uint32" where
  "MACH_MSGH_BITS_REMOTE bits = bits AND 0x1f"

definition MACH_MSGH_BITS_LOCAL :: "uint32 \<Rightarrow> uint32" where
  "MACH_MSGH_BITS_LOCAL bits = drop_bit 8 (bits AND 0x1f00)"

definition MSGID_CONNECTION_INTERRUPTED :: uint32 where
  "MSGID_CONNECTION_INTERRUPTED = 71"

text \<open>The eight bytes \<open>"CPX@\x05\x00\x00\x00"\<close>.\<close>

definition xpc_magic :: "byte list" where
  "xpc_magic = [0x43, 0x50, 0x58, 0x40, 0x05, 0x00, 0x00, 0x00]"

section \<open>Serialization of a message\<close>

text \<open>
  The twelve bytes of the port descriptor that the loop of \<open>spc_serialize\<close> fills in.
  The source assigns \<open>type\<close>, \<open>name\<close> and \<open>disposition\<close> (eight bits wide) and leaves
  the padding of the freshly allocated descriptor as it is; the padding is 0 here, and
  \<open>spc_deserialize\<close> never reads it.
\<close>

definition port_descriptor_bytes :: "spc_port \<Rightarrow> byte list" where
  "port_descriptor_bytes port =
     uint32_bytes (name port) @ [0, 0, 0, 0] @ [0, 0]
       @ [ucast (type port), MACH_MSG_PORT_DESCRIPTOR]"

definition spc_serialize :: "spc_message \<Rightarrow> spc_mach_message" where
  "spc_serialize msg =
     (let initial_size = fst (content msg) * 32;
          writer = \<lparr>w_buf = [], w_cap = initial_size, w_ports = []\<rparr>;
          (w1, _) = spc_write writer xpc_magic;
          (w2, _) = spc_write_uint32 w1 SPC_TYPE_DICT;
          (w3, _) = spc_write_dict w2 (content msg);
          content_size = length (w_buf w3);
          num_ports = length (w_ports w3);
          (actual_size, bits, descriptors) =
            (if num_ports \<noteq> 0
             then (sizeof_mach_msg_header + sizeof_mach_msg_body
                     + num_ports * sizeof_mach_msg_port_descriptor + content_size,
                   MACH_MSGH_BITS_COMPLEX,
                   uint32_bytes (of_nat num_ports)
                     @ concat (map port_descriptor_bytes (w_ports w3)))
             else (sizeof_mach_msg_header + content_size, 0, []))
      in \<lparr>header = \<lparr>msgh_bits =
                      bits OR MACH_MSGH_BITS (type (remote_port msg)) (type (local_port msg)),
                    msgh_size = of_nat actual_size,
                    msgh_remote_port = name (remote_port msg),
                    msgh_local_port = name (local_port msg),
                    msgh_id = msg_id msg\<rparr>,
          buf = descriptors @ w_buf w3\<rparr>)"

section \<open>Deserialization of a message\<close>

text \<open>
  The loop over the descriptors of a complex message. The type of the next descriptor
  is read at \<open>reader.ptr\<close> before \<open>spc_read\<close> checks any bound.
\<close>

function spc_deserialize_descriptors :: "reader \<Rightarrow> nat \<Rightarrow> nat \<Rightarrow> error + reader" where
  "spc_deserialize_descriptors r i msgh_descriptor_count =
     (if i < msgh_descriptor_count then
        (case drop (r_ptr r + 11) (r_mem r) of
           [] \<Rightarrow> Inl Crash_read_outside_buffer
         | ty # _ \<Rightarrow>
             if ty = MACH_MSG_PORT_DESCRIPTOR then
               (case spc_read r sizeof_mach_msg_port_descriptor of Inl e \<Rightarrow> Inl e
                | Inr (descriptor, r1) \<Rightarrow>
                    spc_deserialize_descriptors
                      (r1\<lparr>r_ports := r_ports r1 @
                            [\<lparr>name = of_nat (le_nat (take 4 descriptor)),
                              type = ucast (descriptor ! 10)\<rparr>]\<rparr>)
                      (i + 1) msgh_descriptor_count)
             else if ty = MACH_MSG_OOL_DESCRIPTOR then
               (case spc_read r sizeof_mach_msg_ool_descriptor of Inl e \<Rightarrow> Inl e
                | Inr (_, r1) \<Rightarrow> spc_deserialize_descriptors r1 (i + 1) msgh_descriptor_count)
             else if ty = MACH_MSG_OOL_PORTS_DESCRIPTOR then
               (case spc_read r sizeof_mach_msg_ool_ports_descriptor of Inl e \<Rightarrow> Inl e
                | Inr (_, r1) \<Rightarrow> spc_deserialize_descriptors r1 (i + 1) msgh_descriptor_count)
             else Inl (Exit_unsupported_descriptor_type ty))
      else Inr r)"
  by pat_completeness auto
termination
  by (relation "measure (\<lambda>(r, i, n). n - i)") auto

text \<open>
  \<open>spc_deserialize\<close> with the bound on the nesting depth as a parameter. The result
  \<open>Some (Inr None)\<close> is the return of \<open>NULL\<close>, \<open>Some (Inr (Some msg))\<close> the return of
  a message.
\<close>

definition spc_deserialize_depth ::
  "nat \<Rightarrow> spc_mach_message \<Rightarrow> (error + spc_message option) option" where
  "spc_deserialize_depth depth mach_msg =
     (let reader = \<lparr>r_mem = buf mach_msg,
                     r_end = unat (msgh_size (header mach_msg)) - sizeof_mach_msg_header,
                     r_ptr = 0, r_next_port = 0, r_ports = []\<rparr>
      in if msgh_id (header mach_msg) = MSGID_CONNECTION_INTERRUPTED
         then Some (Inl Exit_connection_interrupted)
         else
           (case (if msgh_bits (header mach_msg) AND MACH_MSGH_BITS_COMPLEX \<noteq> 0
                  then (case spc_read reader sizeof_mach_msg_body of Inl e \<Rightarrow> Inl e
                        | Inr (body, r1) \<Rightarrow>
                            spc_deserialize_descriptors r1 0
                              (unat (of_nat (le_nat body) :: uint32)))
                  else Inr reader) of
              Inl e \<Rightarrow> Some (Inl e)
            | Inr r2 \<Rightarrow>
                (case spc_read r2 8 of Inl e \<Rightarrow> Some (Inl e)
                 | Inr (magic, r3) \<Rightarrow>
                     if magic \<noteq> xpc_magic then Some (Inr None)
                     else
                       (case spc_deserialize_value depth r3 of None \<Rightarrow> None
                        | Some (Inl e) \<Rightarrow> Some (Inl e)
                        | Some (Inr (v, r4)) \<Rightarrow>
                            (case v of
                               SPC_DICT dict \<Rightarrow>
                                 Some (Inr (Some
                                   \<lparr>remote_port =
                                      \<lparr>name = msgh_remote_port (header mach_msg),
                                       type = MACH_MSGH_BITS_REMOTE (msgh_bits (header mach_msg))\<rparr>,
                                    local_port =
                                      \<lparr>name = msgh_remote_port (header mach_msg),
                                       type = MACH_MSGH_BITS_LOCAL (msgh_bits (header mach_msg))\<rparr>,
                                    msg_id = msgh_id (header mach_msg),
                                    content = dict\<rparr>))
                             | _ \<Rightarrow> Some (Inr None))))))"

text \<open>
  Every value record starts with a tag of four bytes, so containers cannot nest deeper
  than the message is long: \<open>spc_deserialize\<close> runs the decoder with that bound.
\<close>

definition spc_deserialize :: "spc_mach_message \<Rightarrow> (error + spc_message option) option" where
  "spc_deserialize mach_msg =
     spc_deserialize_depth (Suc (unat (msgh_size (header mach_msg)))) mach_msg"

section \<open>The wire format\<close>

text \<open>
  The wire format as the specification describes it (section 6): a value record is the
  tag and the payload; a container body is the byte size of what follows, the element
  count and the elements; every padded field is followed by 0 to 3 NUL bytes. The
  serializer is compared with these functions below.
\<close>

definition padded :: "byte list \<Rightarrow> byte list" where
  "padded bs = bs @ replicate ((4 - length bs mod 4) mod 4) 0"

definition wire_container :: "uint32 \<Rightarrow> byte list \<Rightarrow> byte list" where
  "wire_container n body = uint32_bytes (of_nat (4 + length body)) @ uint32_bytes n @ body"

fun wire_value :: "spc_value \<Rightarrow> byte list"
  and wire_values :: "spc_value list \<Rightarrow> byte list"
  and wire_items :: "spc_dictionary_items \<Rightarrow> byte list"
where
  "wire_value SPC_NULL = uint32_bytes SPC_TYPE_NULL"
| "wire_value (SPC_BOOL b) = uint32_bytes SPC_TYPE_BOOL @ uint32_bytes (ucast b)"
| "wire_value (SPC_UINT64 u) = uint32_bytes SPC_TYPE_UINT64 @ uint64_bytes u"
| "wire_value (SPC_INT64 i) = uint32_bytes SPC_TYPE_INT64 @ uint64_bytes i"
| "wire_value (SPC_DOUBLE d) = uint32_bytes SPC_TYPE_DOUBLE @ uint64_bytes d"
| "wire_value (SPC_STRING str) =
     uint32_bytes SPC_TYPE_STRING @ uint32_bytes (of_nat (length str + 1)) @ padded (str @ [0])"
| "wire_value (SPC_ARRAY array) =
     uint32_bytes SPC_TYPE_ARRAY @ wire_container (of_nat (length array)) (wire_values array)"
| "wire_value (SPC_DICT (num_items, items)) =
     uint32_bytes SPC_TYPE_DICT @ wire_container (of_nat num_items) (wire_items items)"
| "wire_value (SPC_FD port) = uint32_bytes SPC_TYPE_FD"
| "wire_value (SPC_SEND_PORT port) = uint32_bytes SPC_TYPE_SEND_PORT"
| "wire_value (SPC_RECV_PORT port) = uint32_bytes SPC_TYPE_RECV_PORT"
| "wire_value (SPC_UUID u) = uint32_bytes SPC_TYPE_UUID @ uuid_bytes u"
| "wire_value (SPC_DATA d) =
     uint32_bytes SPC_TYPE_DATA @ uint32_bytes (of_nat (length d)) @ padded d"
| "wire_value (SPC_OTHER t) = uint32_bytes t"
| "wire_values [] = []"
| "wire_values (v # vs) = wire_value v @ wire_values vs"
| "wire_items [] = []"
| "wire_items ((key, v) # rest) = padded (key @ [0]) @ wire_value v @ wire_items rest"

fun value_ports :: "spc_value \<Rightarrow> spc_port list"
  and values_ports :: "spc_value list \<Rightarrow> spc_port list"
  and items_ports :: "spc_dictionary_items \<Rightarrow> spc_port list"
where
  "value_ports (SPC_ARRAY array) = values_ports array"
| "value_ports (SPC_DICT (num_items, items)) = items_ports items"
| "value_ports (SPC_FD port) = [port]"
| "value_ports (SPC_SEND_PORT port) = [port]"
| "value_ports (SPC_RECV_PORT port) = [port]"
| "value_ports _ = []"
| "values_ports [] = []"
| "values_ports (v # vs) = value_ports v @ values_ports vs"
| "items_ports [] = []"
| "items_ports ((key, v) # rest) = value_ports v @ items_ports rest"

text \<open>
  The region between the header and the envelope: empty when no port was collected,
  else the body with the descriptor count and one port descriptor per port.
\<close>

definition descriptor_region :: "spc_port list \<Rightarrow> byte list" where
  "descriptor_region ports =
     (if ports = [] then []
      else uint32_bytes (of_nat (length ports)) @ concat (map port_descriptor_bytes ports))"

section \<open>Notions used in the statements\<close>

text \<open>The bytes that the reader may still read, those of \<open>[ptr, end)\<close>.\<close>

definition avail :: "reader \<Rightarrow> byte list" where
  "avail r = take (r_end r - r_ptr r) (drop (r_ptr r) (r_mem r))"

text \<open>
  What \<open>spc_deserialize_dict\<close> builds from the entries of a dictionary: each item is
  linked in front of the items read before it, so the list \<open>items\<close> ends up in the
  reverse of the wire order, at every level of nesting.
\<close>

fun rev_dicts :: "spc_value \<Rightarrow> spc_value"
  and rev_dicts_values :: "spc_value list \<Rightarrow> spc_value list"
  and rev_dicts_items :: "spc_dictionary_items \<Rightarrow> spc_dictionary_items"
where
  "rev_dicts (SPC_ARRAY array) = SPC_ARRAY (rev_dicts_values array)"
| "rev_dicts (SPC_DICT (num_items, items)) = SPC_DICT (num_items, rev_dicts_items items)"
| "rev_dicts v = v"
| "rev_dicts_values [] = []"
| "rev_dicts_values (v # vs) = rev_dicts v # rev_dicts_values vs"
| "rev_dicts_items [] = []"
| "rev_dicts_items ((key, v) # rest) = rev_dicts_items rest @ [(key, rev_dicts v)]"

text \<open>
  A well-formed value: no string or key contains a NUL, \<open>num_items\<close> is the number of
  items, every count and size that the wire holds in 32 bits fits in 32 bits (element
  counts, blob sizes, the \<open>u64\<close> slot of a boolean), the disposition of every port
  fits the eight bits of the descriptor, and every tag is one that the serializer
  knows.
\<close>

fun well_formed :: "spc_value \<Rightarrow> bool"
  and well_formed_values :: "spc_value list \<Rightarrow> bool"
  and well_formed_items :: "spc_dictionary_items \<Rightarrow> bool"
where
  "well_formed (SPC_BOOL b) = (unat b < 2 ^ 32)"
| "well_formed (SPC_STRING str) = (0 \<notin> set str)"
| "well_formed (SPC_ARRAY array) = (length array < 2 ^ 32 \<and> well_formed_values array)"
| "well_formed (SPC_DICT (num_items, items)) =
     (num_items = length items \<and> num_items < 2 ^ 32 \<and> well_formed_items items)"
| "well_formed (SPC_FD port) = (unat (type port) < 256)"
| "well_formed (SPC_SEND_PORT port) = (unat (type port) < 256)"
| "well_formed (SPC_RECV_PORT port) = (unat (type port) < 256)"
| "well_formed (SPC_DATA d) = (length d < 2 ^ 32)"
| "well_formed (SPC_OTHER t) = False"
| "well_formed v = True"
| "well_formed_values [] = True"
| "well_formed_values (v # vs) = (well_formed v \<and> well_formed_values vs)"
| "well_formed_items [] = True"
| "well_formed_items ((key, v) # rest) =
     (0 \<notin> set key \<and> well_formed v \<and> well_formed_items rest)"

text \<open>No value with the tag \<open>SPC_TYPE_FD\<close> occurs.\<close>

fun no_fd :: "spc_value \<Rightarrow> bool"
  and no_fd_values :: "spc_value list \<Rightarrow> bool"
  and no_fd_items :: "spc_dictionary_items \<Rightarrow> bool"
where
  "no_fd (SPC_ARRAY array) = no_fd_values array"
| "no_fd (SPC_DICT (num_items, items)) = no_fd_items items"
| "no_fd (SPC_FD port) = False"
| "no_fd v = True"
| "no_fd_values [] = True"
| "no_fd_values (v # vs) = (no_fd v \<and> no_fd_values vs)"
| "no_fd_items [] = True"
| "no_fd_items ((key, v) # rest) = (no_fd v \<and> no_fd_items rest)"

text \<open>The nesting depth of a value, the number of nested calls that decode it.\<close>

fun depth :: "spc_value \<Rightarrow> nat"
  and depth_values :: "spc_value list \<Rightarrow> nat"
  and depth_items :: "spc_dictionary_items \<Rightarrow> nat"
where
  "depth (SPC_ARRAY array) = Suc (depth_values array)"
| "depth (SPC_DICT (num_items, items)) = Suc (depth_items items)"
| "depth v = 1"
| "depth_values [] = 0"
| "depth_values (v # vs) = max (depth v) (depth_values vs)"
| "depth_items [] = 0"
| "depth_items ((key, v) # rest) = max (depth v) (depth_items rest)"

text \<open>
  A well-formed message: a well-formed content, an id other than 71, port
  dispositions that leave the bit \<open>MACH_MSGH_BITS_COMPLEX\<close> alone, and an encoding
  whose size fits \<open>msgh_size\<close>.
\<close>

definition well_formed_message :: "spc_message \<Rightarrow> bool" where
  "well_formed_message m =
     (well_formed (SPC_DICT (content m))
      \<and> msg_id m \<noteq> MSGID_CONNECTION_INTERRUPTED
      \<and> unat (type (remote_port m)) < 256
      \<and> unat (type (local_port m)) < 256
      \<and> sizeof_mach_msg_header + length (buf (spc_serialize m)) < 2 ^ 32)"

section \<open>Bytes of integers: lemmas\<close>

lemma length_le_bytes [simp]: "length (le_bytes n x) = n"
  by (induction n arbitrary: x) auto

lemma le_nat_le_bytes: "le_nat (le_bytes n x) = x mod 256 ^ n"
proof (induction n arbitrary: x)
  case 0
  then show ?case by simp
next
  case (Suc n)
  have "unat (of_nat (x mod 256) :: byte) = x mod 256"
    by (simp add: unat_of_nat)
  then show ?case
    using Suc [of "x div 256"] by (simp add: mod_mult2_eq)
qed

lemma le_nat_lt: "le_nat bs < 256 ^ length bs"
proof (induction bs)
  case Nil
  then show ?case by simp
next
  case (Cons b bs)
  have "unat b < 256" using unsigned_less [of b] by simp
  with Cons show ?case by simp
qed

lemma uint32_of_bytes [simp]: "(of_nat (le_nat (uint32_bytes v)) :: uint32) = v"
proof -
  have "unat v < 256 ^ 4" using unsigned_less [of v] by simp
  then show ?thesis by (simp add: uint32_bytes_def le_nat_le_bytes)
qed

lemma uint64_of_bytes [simp]: "(of_nat (le_nat (uint64_bytes v)) :: uint64) = v"
proof -
  have "unat v < 256 ^ 8" using unsigned_less [of v] by simp
  then show ?thesis by (simp add: uint64_bytes_def le_nat_le_bytes)
qed

lemma uuid_of_bytes [simp]: "(of_nat (le_nat (uuid_bytes v)) :: 128 word) = v"
proof -
  have "unat v < 256 ^ 16" using unsigned_less [of v] by simp
  then show ?thesis by (simp add: uuid_bytes_def le_nat_le_bytes)
qed

lemma length_uint32_bytes [simp]: "length (uint32_bytes v) = 4"
  by (simp add: uint32_bytes_def)

lemma length_uint64_bytes [simp]: "length (uint64_bytes v) = 8"
  by (simp add: uint64_bytes_def)

lemma length_uuid_bytes [simp]: "length (uuid_bytes v) = 16"
  by (simp add: uuid_bytes_def)

lemma le_bytes_numeral [simp]:
  "le_bytes (numeral k) x = of_nat (x mod 256) # le_bytes (pred_numeral k) (x div 256)"
proof -
  have "numeral k = Suc (pred_numeral k)" by (rule numeral_eq_Suc)
  then show ?thesis by (simp only: le_bytes.simps)
qed

section \<open>The serializer writes the wire format\<close>

lemma ensure_space_buf [simp]: "w_buf (spc_ensure_space w n) = w_buf w"
  and ensure_space_ports [simp]: "w_ports (spc_ensure_space w n) = w_ports w"
  by (simp_all add: spc_ensure_space_def)

lemma write_uint32_eq:
  "spc_write_uint32 w v = ((spc_ensure_space w 4)\<lparr>w_buf := w_buf w @ uint32_bytes v\<rparr>, 4)"
  by (simp add: spc_write_uint32_def Let_def)

lemma write_uint32_simps [simp]:
  "w_buf (fst (spc_write_uint32 w v)) = w_buf w @ uint32_bytes v"
  "w_ports (fst (spc_write_uint32 w v)) = w_ports w"
  "snd (spc_write_uint32 w v) = 4"
  by (simp_all add: spc_write_uint32_def Let_def)

lemma write_uint64_simps [simp]:
  "w_buf (fst (spc_write_uint64 w v)) = w_buf w @ uint64_bytes v"
  "w_ports (fst (spc_write_uint64 w v)) = w_ports w"
  "snd (spc_write_uint64 w v) = 8"
  "w_buf (fst (spc_write_int64 w v)) = w_buf w @ uint64_bytes v"
  "w_ports (fst (spc_write_int64 w v)) = w_ports w"
  "snd (spc_write_int64 w v) = 8"
  "w_buf (fst (spc_write_double w v)) = w_buf w @ uint64_bytes v"
  "w_ports (fst (spc_write_double w v)) = w_ports w"
  "snd (spc_write_double w v) = 8"
  by (simp_all add: spc_write_uint64_def spc_write_int64_def spc_write_double_def Let_def)

lemma write_simps [simp]:
  "w_buf (fst (spc_write w bs)) = w_buf w @ bs"
  "w_ports (fst (spc_write w bs)) = w_ports w"
  "snd (spc_write w bs) = length bs"
  by (simp_all add: spc_write_def Let_def)

lemma write_padded_simps [simp]:
  "w_buf (fst (spc_write_padded w bs)) = w_buf w @ padded bs"
  "w_ports (fst (spc_write_padded w bs)) = w_ports w"
  "snd (spc_write_padded w bs) = length (padded bs)"
  by (simp_all add: spc_write_padded_def padded_def Let_def)

lemma write_str_simps [simp]:
  "w_buf (fst (spc_write_str w str)) = w_buf w @ padded (str @ [0])"
  "w_ports (fst (spc_write_str w str)) = w_ports w"
  "snd (spc_write_str w str) = length (padded (str @ [0]))"
  by (simp_all add: spc_write_str_def)

lemma write_port_simps [simp]:
  "w_buf (spc_write_port w p) = w_buf w"
  "w_ports (spc_write_port w p) = w_ports w @ [p]"
  by (simp_all add: spc_write_port_def)

lemma patch_uint32_simps [simp]:
  "w_ports (patch_uint32 w off n) = w_ports w"
  "w_buf w = pre @ old @ post \<Longrightarrow> length old = 4 \<Longrightarrow>
   w_buf (patch_uint32 w (length pre) n) = pre @ uint32_bytes (of_nat n) @ post"
  by (simp_all add: patch_uint32_def)

declare spc_write_array.simps [simp del] spc_write_dict.simps [simp del]

lemma serialize_effect:
  "w_buf (fst (spc_serialize_value w v)) = w_buf w @ wire_value v
   \<and> w_ports (fst (spc_serialize_value w v)) = w_ports w @ value_ports v
   \<and> snd (spc_serialize_value w v) = length (wire_value v)"
  "w_buf (fst (spc_write_array w a)) =
     w_buf w @ wire_container (of_nat (length a)) (wire_values a)
   \<and> w_ports (fst (spc_write_array w a)) = w_ports w @ values_ports a
   \<and> snd (spc_write_array w a) = length (wire_container (of_nat (length a)) (wire_values a))"
  "w_buf (fst (spc_write_array_loop w vs bw)) = w_buf w @ wire_values vs
   \<and> w_ports (fst (spc_write_array_loop w vs bw)) = w_ports w @ values_ports vs
   \<and> snd (spc_write_array_loop w vs bw) = bw + length (wire_values vs)"
  "w_buf (fst (spc_write_dict w d)) =
     w_buf w @ wire_container (of_nat (fst d)) (wire_items (snd d))
   \<and> w_ports (fst (spc_write_dict w d)) = w_ports w @ items_ports (snd d)
   \<and> snd (spc_write_dict w d) = length (wire_container (of_nat (fst d)) (wire_items (snd d)))"
  "w_buf (fst (spc_write_dict_loop w items bw)) = w_buf w @ wire_items items
   \<and> w_ports (fst (spc_write_dict_loop w items bw)) = w_ports w @ items_ports items
   \<and> snd (spc_write_dict_loop w items bw) = bw + length (wire_items items)"
proof (induction w v and w a and w vs bw and w d and w items bw
       rule: spc_serialize_value_spc_write_array_spc_write_array_loop_spc_write_dict_spc_write_dict_loop.induct)
  case (7 w array)
  obtain w1 n1 where a1: "spc_write_uint32 w SPC_TYPE_ARRAY = (w1, n1)" by force
  have b1: "w_buf w1 = w_buf w @ uint32_bytes SPC_TYPE_ARRAY" "w_ports w1 = w_ports w" "n1 = 4"
    using write_uint32_simps [of w SPC_TYPE_ARRAY] a1 by simp_all
  show ?case
    using 7 [OF refl a1 [symmetric]] a1 b1 by (simp add: split_beta)
next
  case (8 w dict)
  obtain w1 n1 where a1: "spc_write_uint32 w SPC_TYPE_DICT = (w1, n1)" by force
  have b1: "w_buf w1 = w_buf w @ uint32_bytes SPC_TYPE_DICT" "w_ports w1 = w_ports w" "n1 = 4"
    using write_uint32_simps [of w SPC_TYPE_DICT] a1 by simp_all
  show ?case
    using 8 [OF refl a1 [symmetric]] a1 b1 by (cases dict) (simp add: split_beta)
next
  case (17 w v vs bw)
  obtain w1 n1 where a1: "spc_serialize_value w v = (w1, n1)" by force
  show ?case
    using 17(1) 17(2) [OF refl a1 [symmetric]] a1 by (simp add: split_beta)
next
  case (20 w key v rest bw)
  obtain w1 n1 where a1: "spc_write_str w key = (w1, n1)" by force
  obtain w2 n2 where a2: "spc_serialize_value w1 v = (w2, n2)" by force
  have b1: "w_buf w1 = w_buf w @ padded (key @ [0])" "w_ports w1 = w_ports w"
      "n1 = length (padded (key @ [0]))"
    using write_str_simps [of w key] a1 by simp_all
  show ?case
    using 20(1) [OF refl a1 [symmetric]] 20(2) [OF refl a1 [symmetric] refl a2 [symmetric]] a1 a2 b1
    by (simp add: split_beta)
next
  case (15 w array)
  obtain w1 n1 where a1: "spc_write_uint32 w 0 = (w1, n1)" by force
  obtain w2 n2 where a2: "spc_write_uint32 w1 (of_nat (length array)) = (w2, n2)" by force
  obtain w3 n3 where a3: "spc_write_array_loop w2 array n2 = (w3, n3)" by force
  have b1: "w_buf w1 = w_buf w @ uint32_bytes 0" "w_ports w1 = w_ports w"
    using write_uint32_simps [of w 0] a1 by simp_all
  have b2: "w_buf w2 = w_buf w1 @ uint32_bytes (of_nat (length array))" "w_ports w2 = w_ports w1" "n2 = 4"
    using write_uint32_simps [of w1 "of_nat (length array)"] a2 by simp_all
  have b3: "w_buf w3 = w_buf w2 @ wire_values array" "w_ports w3 = w_ports w2 @ values_ports array"
     "n3 = n2 + length (wire_values array)"
    using 15 [OF refl a1 [symmetric] refl a2 [symmetric]] a3 by simp_all
  have "w_buf w3 = w_buf w @ uint32_bytes 0 @ (uint32_bytes (of_nat (length array)) @ wire_values array)"
    using b1 b2 b3 by simp
  then have "w_buf (patch_uint32 w3 (length (w_buf w)) n3)
      = w_buf w @ uint32_bytes (of_nat n3) @ (uint32_bytes (of_nat (length array)) @ wire_values array)"
    by (rule patch_uint32_simps(2)) simp
  then show ?case
    using a1 a2 a3 b1 b2 b3 by (simp add: wire_container_def spc_write_array.simps)
next
  case (18 w num_items items)
  obtain w1 n1 where a1: "spc_write_uint32 w 0 = (w1, n1)" by force
  obtain w2 n2 where a2: "spc_write_uint32 w1 (of_nat num_items) = (w2, n2)" by force
  obtain w3 n3 where a3: "spc_write_dict_loop w2 items n2 = (w3, n3)" by force
  have b1: "w_buf w1 = w_buf w @ uint32_bytes 0" "w_ports w1 = w_ports w"
    using write_uint32_simps [of w 0] a1 by simp_all
  have b2: "w_buf w2 = w_buf w1 @ uint32_bytes (of_nat num_items)" "w_ports w2 = w_ports w1" "n2 = 4"
    using write_uint32_simps [of w1 "of_nat num_items"] a2 by simp_all
  have b3: "w_buf w3 = w_buf w2 @ wire_items items" "w_ports w3 = w_ports w2 @ items_ports items"
     "n3 = n2 + length (wire_items items)"
    using 18 [OF refl a1 [symmetric] refl a2 [symmetric]] a3 by simp_all
  have "w_buf w3 = w_buf w @ uint32_bytes 0 @ (uint32_bytes (of_nat num_items) @ wire_items items)"
    using b1 b2 b3 by simp
  then have "w_buf (patch_uint32 w3 (length (w_buf w)) n3)
      = w_buf w @ uint32_bytes (of_nat n3) @ (uint32_bytes (of_nat num_items) @ wire_items items)"
    by (rule patch_uint32_simps(2)) simp
  then show ?case
    using a1 a2 a3 b1 b2 b3 by (simp add: wire_container_def spc_write_dict.simps)
qed (simp_all add: split_beta Let_def)

lemma length_padded: "length (padded bs) = length bs + (4 - length bs mod 4) mod 4"
  by (simp add: padded_def)

lemma pad_mod: "((n::nat) + (4 - n mod 4) mod 4) mod 4 = 0"
proof -
  have "n mod 4 = 0 \<or> n mod 4 = 1 \<or> n mod 4 = 2 \<or> n mod 4 = 3"
    by linarith
  moreover have "(n + (4 - n mod 4) mod 4) mod 4 = (n mod 4 + (4 - n mod 4) mod 4) mod 4"
    by (simp add: mod_add_left_eq)
  ultimately show ?thesis
    by auto
qed

lemma padded_dvd: "4 dvd length (padded bs)"
  unfolding length_padded by (rule mod_0_imp_dvd) (rule pad_mod)

lemma le_nat_uint32_bytes: "le_nat (uint32_bytes v) = unat v"
proof -
  have "unat v < 256 ^ 4" using unsigned_less [of v] by simp
  then show ?thesis by (simp add: uint32_bytes_def le_nat_le_bytes del: le_bytes_numeral)
qed

lemma le_nat_uint32_of_nat: "le_nat (uint32_bytes (of_nat n)) = n mod 2 ^ 32"
  by (simp only: le_nat_uint32_bytes unat_of_nat) simp

lemma container_field:
  assumes "cs = bs @ wire_container n body"
  shows "take 4 (drop (length bs) cs) = uint32_bytes (of_nat (length cs - (length bs + 4)))"
    and "le_nat (take 4 (drop (length bs) cs)) = (length cs - (length bs + 4)) mod 2 ^ 32"
    and "length (wire_container n body) = (length cs - (length bs + 4)) + 4"
    and "drop (length bs + 4) cs = uint32_bytes n @ body"
proof -
  have len: "length cs - (length bs + 4) = 4 + length body"
    by (simp add: assms wire_container_def)
  show "take 4 (drop (length bs) cs) = uint32_bytes (of_nat (length cs - (length bs + 4)))"
    unfolding len by (simp add: assms wire_container_def del: of_nat_add)
  then show "le_nat (take 4 (drop (length bs) cs)) = (length cs - (length bs + 4)) mod 2 ^ 32"
    by (simp only: le_nat_uint32_of_nat)
  show "length (wire_container n body) = (length cs - (length bs + 4)) + 4"
    unfolding len by (simp add: wire_container_def)
  show "drop (length bs + 4) cs = uint32_bytes n @ body"
    by (simp add: assms wire_container_def)
qed

section \<open>The reader: lemmas\<close>

lemma length_avail: "length (avail r) \<le> r_end r - r_ptr r"
  by (simp add: avail_def)

lemma avail_advance [simp]:
  "avail (r\<lparr>r_ptr := r_ptr r + n\<rparr>) = drop n (avail r)"
  by (simp add: avail_def drop_take add.commute)

lemma avail_advance' [simp]:
  "avail (r\<lparr>r_ptr := n + r_ptr r\<rparr>) = drop n (avail r)"
  by (simp add: avail_def drop_take add.commute)

lemma avail_next_port [simp]:
  "avail (r\<lparr>r_next_port := k\<rparr>) = avail r"
  "avail (r\<lparr>r_ports := ps\<rparr>) = avail r"
  by (simp_all add: avail_def)

lemma spc_read_avail:
  assumes "n \<le> length (avail r)" "r_ptr r \<le> r_end r"
  shows "spc_read r n = Inr (take n (avail r), r\<lparr>r_ptr := r_ptr r + n\<rparr>)"
proof -
  have "n \<le> r_end r - r_ptr r"
    using assms(1) length_avail [of r] by simp
  then have "take n (avail r) = take n (drop (r_ptr r) (r_mem r))"
    by (simp add: avail_def min_def)
  moreover have "\<not> r_ptr r + n > r_end r"
    using \<open>n \<le> r_end r - r_ptr r\<close> assms(2) by simp
  ultimately show ?thesis
    by (simp add: spc_read_def)
qed

lemma ptr_le_end_advance:
  "n \<le> length (avail r) \<Longrightarrow> r_ptr r \<le> r_end r \<Longrightarrow> r_ptr r + n \<le> r_end r"
  using length_avail [of r] by simp

lemma spc_read_uint32_avail:
  assumes "4 \<le> length (avail r)" "r_ptr r \<le> r_end r"
  shows "spc_read_uint32 r = Inr (of_nat (le_nat (take 4 (avail r))), r\<lparr>r_ptr := r_ptr r + 4\<rparr>)"
  by (simp add: spc_read_uint32_def spc_read_avail [OF assms])

lemma spc_read_uint64_avail:
  assumes "8 \<le> length (avail r)" "r_ptr r \<le> r_end r"
  shows "spc_read_uint64 r = Inr (of_nat (le_nat (take 8 (avail r))), r\<lparr>r_ptr := r_ptr r + 8\<rparr>)"
    and "spc_read_int64 r = Inr (of_nat (le_nat (take 8 (avail r))), r\<lparr>r_ptr := r_ptr r + 8\<rparr>)"
    and "spc_read_double r = Inr (of_nat (le_nat (take 8 (avail r))), r\<lparr>r_ptr := r_ptr r + 8\<rparr>)"
  by (simp_all add: spc_read_uint64_def spc_read_int64_def spc_read_double_def
        spc_read_avail [OF assms])

lemma spc_read_padded_avail:
  assumes "avail r = padded bs @ rest" "r_ptr r \<le> r_end r"
  shows "spc_read_padded r (length bs)
           = Inr (padded bs, r\<lparr>r_ptr := r_ptr r + length (padded bs)\<rparr>)"
proof -
  have "length (padded bs) \<le> length (avail r)"
    by (simp add: assms(1))
  from spc_read_avail [OF this assms(2)] show ?thesis
    by (simp add: spc_read_padded_def Let_def length_padded assms(1))
qed

lemma memchr0_append:
  "0 \<notin> set s \<Longrightarrow> memchr0 (s @ 0 # xs) = Some (length s)"
  by (induction s) auto

lemma takeWhile_nul:
  "0 \<notin> set s \<Longrightarrow> takeWhile (\<lambda>b. b \<noteq> 0) (s @ 0 # xs) = s"
  by (induction s) auto

lemma padded_str: "padded (s @ [0]) = s @ 0 # replicate ((4 - (length s + 1) mod 4) mod 4) 0"
  by (simp add: padded_def)

lemma spc_read_str_avail:
  assumes "avail r = padded (s @ [0]) @ rest" "r_ptr r \<le> r_end r" "0 \<notin> set s"
  shows "spc_read_str r
           = Inr (Some (padded (s @ [0])), r\<lparr>r_ptr := r_ptr r + length (padded (s @ [0]))\<rparr>)"
proof -
  have "memchr0 (avail r) = Some (length s)"
    using memchr0_append [OF assms(3)] by (simp add: assms(1) padded_str)
  moreover have "spc_read_padded r (length (s @ [0]))
      = Inr (padded (s @ [0]), r\<lparr>r_ptr := r_ptr r + length (padded (s @ [0]))\<rparr>)"
    by (rule spc_read_padded_avail [OF assms(1,2)])
  ultimately show ?thesis
    by (simp add: spc_read_str_def avail_def [symmetric])
qed

lemma strdup_padded:
  "0 \<notin> set s \<Longrightarrow> strdup (Some (padded (s @ [0]))) = Inr s"
  by (simp add: strdup_def padded_str takeWhile_nul)

section \<open>The deserializer reads the wire format\<close>

declare spc_deserialize_value.simps [simp del] spc_deserialize_array.simps [simp del]
  spc_deserialize_array_loop.simps [simp del] spc_deserialize_dict.simps [simp del]
  spc_deserialize_dict_loop.simps [simp del]

lemma drop_eq_ConsD: "drop k xs = p # ps \<Longrightarrow> k < length xs \<and> xs ! k = p"
  by (metis Cons_nth_drop_Suc drop_all list.distinct(1) list.inject not_less)

lemma next_port_avail:
  assumes "drop (r_next_port r) (r_ports r) = p # ps"
  shows "spc_reader_next_port r = (p, r\<lparr>r_next_port := r_next_port r + 1\<rparr>)"
  using drop_eq_ConsD [OF assms] by (simp add: spc_reader_next_port_def)

lemma ucast_ucast_small:
  fixes b :: "'a::len word"
  assumes "unat b < 2 ^ LENGTH('b::len)"
  shows "(ucast (ucast b :: 'b word) :: 'a word) = b"
proof -
  have "unat (ucast (ucast b :: 'b word) :: 'a word) = unat b"
    using assms by (simp add: unsigned_ucast_eq unsigned_take_bit_eq take_bit_nat_eq_self)
  then show ?thesis
    by (simp add: word_unat_eq_iff)
qed

lemma unat_of_nat_small: "n < 2 ^ 32 \<Longrightarrow> unat (of_nat n :: uint32) = n"
  by (simp add: unat_of_nat)

lemma avail_bound:
  "avail r = xs @ rest \<Longrightarrow> r_ptr r \<le> r_end r \<Longrightarrow> r_ptr r + length xs \<le> r_end r"
  using length_avail [of r] by simp

lemma deserialize_leaf:
  assumes "r_ptr r \<le> r_end r"
  shows "avail r = wire_value SPC_NULL @ rest \<Longrightarrow>
         spc_deserialize_value (Suc d) r = Some (Inr (SPC_NULL, r\<lparr>r_ptr := r_ptr r + 4\<rparr>))"
    and "avail r = wire_value (SPC_BOOL b) @ rest \<Longrightarrow> unat b < 2 ^ 32 \<Longrightarrow>
         spc_deserialize_value (Suc d) r = Some (Inr (SPC_BOOL b, r\<lparr>r_ptr := r_ptr r + 8\<rparr>))"
    and "avail r = wire_value (SPC_UINT64 u) @ rest \<Longrightarrow>
         spc_deserialize_value (Suc d) r = Some (Inr (SPC_UINT64 u, r\<lparr>r_ptr := r_ptr r + 12\<rparr>))"
    and "avail r = wire_value (SPC_INT64 u) @ rest \<Longrightarrow>
         spc_deserialize_value (Suc d) r = Some (Inr (SPC_INT64 u, r\<lparr>r_ptr := r_ptr r + 12\<rparr>))"
    and "avail r = wire_value (SPC_DOUBLE u) @ rest \<Longrightarrow>
         spc_deserialize_value (Suc d) r = Some (Inr (SPC_DOUBLE u, r\<lparr>r_ptr := r_ptr r + 12\<rparr>))"
    and "avail r = wire_value (SPC_UUID uu) @ rest \<Longrightarrow>
         spc_deserialize_value (Suc d) r = Some (Inr (SPC_UUID uu, r\<lparr>r_ptr := r_ptr r + 20\<rparr>))"
proof -
  show "avail r = wire_value SPC_NULL @ rest \<Longrightarrow>
         spc_deserialize_value (Suc d) r = Some (Inr (SPC_NULL, r\<lparr>r_ptr := r_ptr r + 4\<rparr>))"
    using assms
    by (simp add: spc_deserialize_value.simps spc_read_uint32_avail)
  show "avail r = wire_value (SPC_BOOL b) @ rest \<Longrightarrow> unat b < 2 ^ 32 \<Longrightarrow>
         spc_deserialize_value (Suc d) r = Some (Inr (SPC_BOOL b, r\<lparr>r_ptr := r_ptr r + 8\<rparr>))"
    using assms avail_bound [of r "wire_value (SPC_BOOL b)" rest]
    by (simp add: spc_deserialize_value.simps spc_read_uint32_avail SPC_TYPE_defs
          ucast_ucast_small)
  show "avail r = wire_value (SPC_UINT64 u) @ rest \<Longrightarrow>
         spc_deserialize_value (Suc d) r = Some (Inr (SPC_UINT64 u, r\<lparr>r_ptr := r_ptr r + 12\<rparr>))"
    using assms avail_bound [of r "wire_value (SPC_UINT64 u)" rest]
    by (simp add: spc_deserialize_value.simps spc_read_uint32_avail SPC_TYPE_defs
          spc_read_uint64_avail)
  show "avail r = wire_value (SPC_INT64 u) @ rest \<Longrightarrow>
         spc_deserialize_value (Suc d) r = Some (Inr (SPC_INT64 u, r\<lparr>r_ptr := r_ptr r + 12\<rparr>))"
    using assms avail_bound [of r "wire_value (SPC_INT64 u)" rest]
    by (simp add: spc_deserialize_value.simps spc_read_uint32_avail SPC_TYPE_defs
          spc_read_uint64_avail)
  show "avail r = wire_value (SPC_DOUBLE u) @ rest \<Longrightarrow>
         spc_deserialize_value (Suc d) r = Some (Inr (SPC_DOUBLE u, r\<lparr>r_ptr := r_ptr r + 12\<rparr>))"
    using assms avail_bound [of r "wire_value (SPC_DOUBLE u)" rest]
    by (simp add: spc_deserialize_value.simps spc_read_uint32_avail SPC_TYPE_defs
          spc_read_uint64_avail)
  show "avail r = wire_value (SPC_UUID uu) @ rest \<Longrightarrow>
         spc_deserialize_value (Suc d) r = Some (Inr (SPC_UUID uu, r\<lparr>r_ptr := r_ptr r + 20\<rparr>))"
    using assms avail_bound [of r "wire_value (SPC_UUID uu)" rest]
    by (simp add: spc_deserialize_value.simps spc_read_uint32_avail SPC_TYPE_defs
          spc_read_avail)
qed

lemma deserialize_string:
  assumes "r_ptr r \<le> r_end r" "avail r = wire_value (SPC_STRING s) @ rest" "0 \<notin> set s"
  shows "spc_deserialize_value (Suc d) r
          = Some (Inr (SPC_STRING s, r\<lparr>r_ptr := r_ptr r + length (wire_value (SPC_STRING s))\<rparr>))"
proof -
  let ?r2 = "r\<lparr>r_ptr := r_ptr r + 8\<rparr>"
  have b: "r_ptr r + length (wire_value (SPC_STRING s)) \<le> r_end r"
    using assms(1,2) by (rule avail_bound [rotated])
  have "avail ?r2 = padded (s @ [0]) @ rest"
    by (simp add: assms(2))
  moreover have "r_ptr ?r2 \<le> r_end ?r2"
    using b by simp
  ultimately have "spc_read_str ?r2
      = Inr (Some (padded (s @ [0])), ?r2\<lparr>r_ptr := r_ptr ?r2 + length (padded (s @ [0]))\<rparr>)"
    using assms(3) by (rule spc_read_str_avail)
  then show ?thesis
    using assms b
    by (simp add: spc_deserialize_value.simps spc_read_uint32_avail SPC_TYPE_defs
          strdup_padded add.assoc)
qed

lemma take_padded [simp]: "take (length d) (padded d) = d"
  by (simp add: padded_def)

lemma deserialize_data:
  assumes "r_ptr r \<le> r_end r" "avail r = wire_value (SPC_DATA dat) @ rest" "length dat < 2 ^ 32"
  shows "spc_deserialize_value (Suc d) r
          = Some (Inr (SPC_DATA dat, r\<lparr>r_ptr := r_ptr r + length (wire_value (SPC_DATA dat))\<rparr>))"
proof -
  let ?r2 = "r\<lparr>r_ptr := r_ptr r + 8\<rparr>"
  have b: "r_ptr r + length (wire_value (SPC_DATA dat)) \<le> r_end r"
    using assms(1,2) by (rule avail_bound [rotated])
  have "avail ?r2 = padded dat @ rest"
    by (simp add: assms(2))
  moreover have "r_ptr ?r2 \<le> r_end ?r2"
    using b by simp
  ultimately have "spc_read_padded ?r2 (length dat)
      = Inr (padded dat, ?r2\<lparr>r_ptr := r_ptr ?r2 + length (padded dat)\<rparr>)"
    by (rule spc_read_padded_avail)
  then show ?thesis
    using assms b
    by (simp add: spc_deserialize_value.simps spc_read_uint32_avail SPC_TYPE_defs
          unat_of_nat_small add.assoc)
qed

lemma deserialize_port:
  assumes "r_ptr r \<le> r_end r" "drop (r_next_port r) (r_ports r) = p # ps"
  shows "avail r = wire_value (SPC_SEND_PORT p) @ rest \<Longrightarrow>
         spc_deserialize_value (Suc d) r
          = Some (Inr (SPC_SEND_PORT p, r\<lparr>r_ptr := r_ptr r + 4, r_next_port := r_next_port r + 1\<rparr>))"
    and "avail r = wire_value (SPC_RECV_PORT p) @ rest \<Longrightarrow>
         spc_deserialize_value (Suc d) r
          = Some (Inr (SPC_RECV_PORT p, r\<lparr>r_ptr := r_ptr r + 4, r_next_port := r_next_port r + 1\<rparr>))"
proof -
  have np: "spc_reader_next_port (r\<lparr>r_ptr := r_ptr r + 4\<rparr>)
      = (p, r\<lparr>r_ptr := r_ptr r + 4, r_next_port := r_next_port r + 1\<rparr>)"
    using next_port_avail [of "r\<lparr>r_ptr := r_ptr r + 4\<rparr>" p ps] assms(2) by simp
  show "avail r = wire_value (SPC_SEND_PORT p) @ rest \<Longrightarrow>
         spc_deserialize_value (Suc d) r
          = Some (Inr (SPC_SEND_PORT p, r\<lparr>r_ptr := r_ptr r + 4, r_next_port := r_next_port r + 1\<rparr>))"
    using assms(1) np
    by (simp add: spc_deserialize_value.simps spc_read_uint32_avail SPC_TYPE_defs)
  show "avail r = wire_value (SPC_RECV_PORT p) @ rest \<Longrightarrow>
         spc_deserialize_value (Suc d) r
          = Some (Inr (SPC_RECV_PORT p, r\<lparr>r_ptr := r_ptr r + 4, r_next_port := r_next_port r + 1\<rparr>))"
    using assms(1) np
    by (simp add: spc_deserialize_value.simps spc_read_uint32_avail SPC_TYPE_defs)
qed

text \<open>A container: the tag, the two words, then the loop.\<close>

lemma deserialize_array_header:
  assumes "r_ptr r \<le> r_end r"
    and "avail r = uint32_bytes SPC_TYPE_ARRAY @ wire_container (of_nat n) body @ rest"
    and "n < 2 ^ 32"
  shows "spc_deserialize_value (Suc d) r =
          (case spc_deserialize_array_loop d (r\<lparr>r_ptr := r_ptr r + 12\<rparr>) 0 n [] of
             None \<Rightarrow> None
           | Some (Inl e) \<Rightarrow> Some (Inl e)
           | Some (Inr (array, r2)) \<Rightarrow> Some (Inr (SPC_ARRAY array, r2)))"
proof -
  have b: "r_ptr r + length (uint32_bytes SPC_TYPE_ARRAY @ wire_container (of_nat n) body) \<le> r_end r"
    using assms(1,2) by (intro avail_bound [where rest = rest]) simp_all
  show ?thesis
    using assms b
    by (simp add: spc_deserialize_value.simps spc_deserialize_array.simps
          spc_read_uint32_avail SPC_TYPE_defs wire_container_def unat_of_nat_small
          spc_array_create_def)
       (simp add: add.commute)
qed

lemma deserialize_dict_header:
  assumes "r_ptr r \<le> r_end r"
    and "avail r = uint32_bytes SPC_TYPE_DICT @ wire_container (of_nat n) body @ rest"
    and "n < 2 ^ 32"
  shows "spc_deserialize_value (Suc d) r =
          (case spc_deserialize_dict_loop d (r\<lparr>r_ptr := r_ptr r + 12\<rparr>) 0 (n, []) of
             None \<Rightarrow> None
           | Some (Inl e) \<Rightarrow> Some (Inl e)
           | Some (Inr (dict, r2)) \<Rightarrow> Some (Inr (SPC_DICT dict, r2)))"
proof -
  have b: "r_ptr r + length (uint32_bytes SPC_TYPE_DICT @ wire_container (of_nat n) body) \<le> r_end r"
    using assms(1,2) by (intro avail_bound [where rest = rest]) simp_all
  show ?thesis
    using assms b
    by (simp add: spc_deserialize_value.simps spc_deserialize_dict.simps
          spc_read_uint32_avail SPC_TYPE_defs wire_container_def unat_of_nat_small
          spc_dictionary_create_def)
       (simp add: add.commute)
qed

lemma array_set_append: "spc_array_set_value acc (length acc) v = acc @ [v]"
  by (simp add: spc_array_set_value_def)

lemma deserialize_wire:
  "\<lbrakk>well_formed v; no_fd v; avail r = wire_value v @ rest; r_ptr r \<le> r_end r;
    drop (r_next_port r) (r_ports r) = value_ports v @ ps; depth v \<le> d\<rbrakk>
   \<Longrightarrow> spc_deserialize_value d r
         = Some (Inr (rev_dicts v,
             r\<lparr>r_ptr := r_ptr r + length (wire_value v),
               r_next_port := r_next_port r + length (value_ports v)\<rparr>))"
  "\<lbrakk>well_formed_values vs; no_fd_values vs; avail r = wire_values vs @ rest;
    r_ptr r \<le> r_end r; drop (r_next_port r) (r_ports r) = values_ports vs @ ps;
    depth_values vs \<le> d; len = length acc + length vs\<rbrakk>
   \<Longrightarrow> spc_deserialize_array_loop d r (length acc) len acc
         = Some (Inr (acc @ rev_dicts_values vs,
             r\<lparr>r_ptr := r_ptr r + length (wire_values vs),
               r_next_port := r_next_port r + length (values_ports vs)\<rparr>))"
  "\<lbrakk>well_formed_items items; no_fd_items items; avail r = wire_items items @ rest;
    r_ptr r \<le> r_end r; drop (r_next_port r) (r_ports r) = items_ports items @ ps;
    depth_items items \<le> d; n = i + length items\<rbrakk>
   \<Longrightarrow> spc_deserialize_dict_loop d r i (n, dacc)
         = Some (Inr ((n, rev_dicts_items items @ dacc),
             r\<lparr>r_ptr := r_ptr r + length (wire_items items),
               r_next_port := r_next_port r + length (items_ports items)\<rparr>))"
proof (induction v and vs and items
       arbitrary: r rest ps d and r rest ps d acc len and r rest ps d dacc i n
       rule: wire_value_wire_values_wire_items.induct)
  case (1 r rest ps d)
  then obtain d' where "d = Suc d'" by (cases d) auto
  with 1 deserialize_leaf(1) [of r rest d'] show ?case by simp
next
  case (2 b r rest ps d)
  then obtain d' where "d = Suc d'" by (cases d) auto
  with 2 deserialize_leaf(2) [of r b rest d'] show ?case by simp
next
  case (3 u r rest ps d)
  then obtain d' where "d = Suc d'" by (cases d) auto
  with 3 deserialize_leaf(3) [of r u rest d'] show ?case by simp
next
  case (4 u r rest ps d)
  then obtain d' where "d = Suc d'" by (cases d) auto
  with 4 deserialize_leaf(4) [of r u rest d'] show ?case by simp
next
  case (5 u r rest ps d)
  then obtain d' where "d = Suc d'" by (cases d) auto
  with 5 deserialize_leaf(5) [of r u rest d'] show ?case by simp
next
  case (6 str r rest ps d)
  then obtain d' where "d = Suc d'" by (cases d) auto
  with 6 deserialize_string [of r str rest d'] show ?case by simp
next
  case (7 array r rest ps d)
  then obtain d' where d: "d = Suc d'" and dd: "depth_values array \<le> d'" by (cases d) auto
  let ?r3 = "r\<lparr>r_ptr := r_ptr r + 12\<rparr>"
  have b: "r_ptr r + length (wire_value (SPC_ARRAY array)) \<le> r_end r"
    using 7(4,5) by (rule avail_bound)
  have av: "avail r = uint32_bytes SPC_TYPE_ARRAY
              @ wire_container (of_nat (length array)) (wire_values array) @ rest"
    using 7(4) by simp
  have hd: "spc_deserialize_value (Suc d') r =
          (case spc_deserialize_array_loop d' ?r3 0 (length array) [] of
             None \<Rightarrow> None
           | Some (Inl e) \<Rightarrow> Some (Inl e)
           | Some (Inr (array, r2)) \<Rightarrow> Some (Inr (SPC_ARRAY array, r2)))"
    using 7(5) av by (rule deserialize_array_header) (use 7(2) in simp)
  have "spc_deserialize_array_loop d' ?r3 (length ([] :: spc_value list)) (length array) []
      = Some (Inr ([] @ rev_dicts_values array,
             ?r3\<lparr>r_ptr := r_ptr ?r3 + length (wire_values array),
               r_next_port := r_next_port ?r3 + length (values_ports array)\<rparr>))"
  proof (rule 7(1) [where rest = rest and ps = ps])
    show "well_formed_values array" using 7(2) by simp
    show "no_fd_values array" using 7(3) by simp
    show "avail ?r3 = wire_values array @ rest" by (simp add: av wire_container_def)
    show "r_ptr ?r3 \<le> r_end ?r3" using b by (simp add: wire_container_def)
    show "drop (r_next_port ?r3) (r_ports ?r3) = values_ports array @ ps" using 7(6) by simp
    show "depth_values array \<le> d'" by (rule dd)
    show "length array = length ([] :: spc_value list) + length array" by simp
  qed
  then show ?case
    unfolding d hd by (simp add: wire_container_def add.assoc)
next
  case (8 num_items items r rest ps d)
  then obtain d' where d: "d = Suc d'" and dd: "depth_items items \<le> d'" by (cases d) auto
  let ?r3 = "r\<lparr>r_ptr := r_ptr r + 12\<rparr>"
  have b: "r_ptr r + length (wire_value (SPC_DICT (num_items, items))) \<le> r_end r"
    using 8(4,5) by (rule avail_bound)
  have av: "avail r = uint32_bytes SPC_TYPE_DICT
              @ wire_container (of_nat num_items) (wire_items items) @ rest"
    using 8(4) by simp
  have hd: "spc_deserialize_value (Suc d') r =
          (case spc_deserialize_dict_loop d' ?r3 0 (num_items, []) of
             None \<Rightarrow> None
           | Some (Inl e) \<Rightarrow> Some (Inl e)
           | Some (Inr (dict, r2)) \<Rightarrow> Some (Inr (SPC_DICT dict, r2)))"
    using 8(5) av by (rule deserialize_dict_header) (use 8(2) in simp)
  have "spc_deserialize_dict_loop d' ?r3 0 (num_items, [])
      = Some (Inr ((num_items, rev_dicts_items items @ []),
             ?r3\<lparr>r_ptr := r_ptr ?r3 + length (wire_items items),
               r_next_port := r_next_port ?r3 + length (items_ports items)\<rparr>))"
  proof (rule 8(1) [where rest = rest and ps = ps])
    show "well_formed_items items" using 8(2) by simp
    show "no_fd_items items" using 8(3) by simp
    show "avail ?r3 = wire_items items @ rest" by (simp add: av wire_container_def)
    show "r_ptr ?r3 \<le> r_end ?r3" using b by (simp add: wire_container_def)
    show "drop (r_next_port ?r3) (r_ports ?r3) = items_ports items @ ps" using 8(6) by simp
    show "depth_items items \<le> d'" by (rule dd)
    show "num_items = 0 + length items" using 8(2) by simp
  qed
  then show ?case
    unfolding d hd by (simp add: wire_container_def add.assoc)
next
  case (9 port r rest ps d)
  then show ?case by simp
next
  case (10 port r rest ps d)
  then obtain d' where "d = Suc d'" by (cases d) auto
  with 10 deserialize_port(1) [of r port ps rest d'] show ?case by simp
next
  case (11 port r rest ps d)
  then obtain d' where "d = Suc d'" by (cases d) auto
  with 11 deserialize_port(2) [of r port ps rest d'] show ?case by simp
next
  case (12 u r rest ps d)
  then obtain d' where "d = Suc d'" by (cases d) auto
  with 12 deserialize_leaf(6) [of r u rest d'] show ?case by simp
next
  case (13 dat r rest ps d)
  then obtain d' where "d = Suc d'" by (cases d) auto
  with 13 deserialize_data [of r dat rest d'] show ?case by simp
next
  case (14 t r rest ps d)
  then show ?case by simp
next
  case (15 r rest ps d acc len)
  then show ?case
    by (simp add: spc_deserialize_array_loop.simps)
next
  case (16 v vs r rest ps d acc len)
  let ?r1 = "r\<lparr>r_ptr := r_ptr r + length (wire_value v),
               r_next_port := r_next_port r + length (value_ports v)\<rparr>"
  have b: "r_ptr r + length (wire_value v) \<le> r_end r"
    using 16(5,6) by (intro avail_bound [where rest = "wire_values vs @ rest"]) simp_all
  have v: "spc_deserialize_value d r = Some (Inr (rev_dicts v, ?r1))"
  proof (rule 16(1) [where rest = "wire_values vs @ rest" and ps = "values_ports vs @ ps"])
    show "well_formed v" using 16(3) by simp
    show "no_fd v" using 16(4) by simp
    show "avail r = wire_value v @ wire_values vs @ rest" using 16(5) by simp
    show "r_ptr r \<le> r_end r" by (rule 16(6))
    show "drop (r_next_port r) (r_ports r) = value_ports v @ values_ports vs @ ps"
      using 16(7) by simp
    show "depth v \<le> d" using 16(8) by simp
  qed
  have "spc_deserialize_array_loop d ?r1 (length (acc @ [rev_dicts v])) len (acc @ [rev_dicts v])
      = Some (Inr ((acc @ [rev_dicts v]) @ rev_dicts_values vs,
             ?r1\<lparr>r_ptr := r_ptr ?r1 + length (wire_values vs),
               r_next_port := r_next_port ?r1 + length (values_ports vs)\<rparr>))"
  proof (rule 16(2) [where rest = rest and ps = ps])
    show "well_formed_values vs" using 16(3) by simp
    show "no_fd_values vs" using 16(4) by simp
    show "avail ?r1 = wire_values vs @ rest" using 16(5) by simp
    show "r_ptr ?r1 \<le> r_end ?r1" using b by simp
    show "drop (r_next_port ?r1) (r_ports ?r1) = values_ports vs @ ps"
      using 16(7) by (simp add: add.commute [of "r_next_port r"] drop_drop [symmetric])
    show "depth_values vs \<le> d" using 16(8) by simp
    show "len = length (acc @ [rev_dicts v]) + length vs" using 16(9) by simp
  qed
  then show ?case
    using 16(9) v
    by (subst spc_deserialize_array_loop.simps) (simp add: array_set_append add.assoc)
next
  case (17 r rest ps d dacc i n)
  then show ?case
    by (simp add: spc_deserialize_dict_loop.simps)
next
  case (18 key v items r rest ps d dacc i n)
  let ?r1 = "r\<lparr>r_ptr := r_ptr r + length (padded (key @ [0]))\<rparr>"
  let ?r2 = "?r1\<lparr>r_ptr := r_ptr ?r1 + length (wire_value v),
               r_next_port := r_next_port ?r1 + length (value_ports v)\<rparr>"
  have b: "r_ptr r + length (padded (key @ [0]) @ wire_value v) \<le> r_end r"
    using 18(5,6) by (intro avail_bound [where rest = "wire_items items @ rest"]) simp_all
  have k: "spc_read_str r = Inr (Some (padded (key @ [0])), ?r1)"
    using 18(3,5,6) by (intro spc_read_str_avail [where rest = "wire_value v @ wire_items items @ rest"]) simp_all
  have k': "strdup (Some (padded (key @ [0]))) = Inr key"
    using 18(3) by (simp add: strdup_padded)
  have v: "spc_deserialize_value d ?r1 = Some (Inr (rev_dicts v, ?r2))"
  proof (rule 18(1) [where rest = "wire_items items @ rest" and ps = "items_ports items @ ps"])
    show "well_formed v" using 18(3) by simp
    show "no_fd v" using 18(4) by simp
    show "avail ?r1 = wire_value v @ wire_items items @ rest" using 18(5) by simp
    show "r_ptr ?r1 \<le> r_end ?r1" using b by simp
    show "drop (r_next_port ?r1) (r_ports ?r1) = value_ports v @ items_ports items @ ps"
      using 18(7) by simp
    show "depth v \<le> d" using 18(8) by simp
  qed
  have "spc_deserialize_dict_loop d ?r2 (i + 1) (n, (key, rev_dicts v) # dacc)
      = Some (Inr ((n, rev_dicts_items items @ (key, rev_dicts v) # dacc),
             ?r2\<lparr>r_ptr := r_ptr ?r2 + length (wire_items items),
               r_next_port := r_next_port ?r2 + length (items_ports items)\<rparr>))"
  proof (rule 18(2) [where rest = rest and ps = ps])
    show "well_formed_items items" using 18(3) by simp
    show "no_fd_items items" using 18(4) by simp
    show "avail ?r2 = wire_items items @ rest" using 18(5) by (simp add: add.assoc)
    show "r_ptr ?r2 \<le> r_end ?r2" using b by simp
    show "drop (r_next_port ?r2) (r_ports ?r2) = items_ports items @ ps"
      using 18(7) by (simp add: add.commute [of "r_next_port r"] drop_drop [symmetric])
    show "depth_items items \<le> d" using 18(8) by simp
    show "n = i + 1 + length items" using 18(9) by simp
  qed
  then show ?case
    using 18(9) k k' v
    by (subst spc_deserialize_dict_loop.simps) (simp add: add.assoc)
qed

section \<open>Serialization and deserialization of a message\<close>

lemma length_port_descriptor_bytes [simp]: "length (port_descriptor_bytes p) = 12"
  by (simp add: port_descriptor_bytes_def)

lemma length_concat_descriptors [simp]:
  "length (concat (map port_descriptor_bytes ps)) = 12 * length ps"
  by (induction ps) simp_all

lemma length_descriptor_region:
  "length (descriptor_region ps) = (if ps = [] then 0 else 4 + 12 * length ps)"
  by (simp add: descriptor_region_def)

lemma spc_serialize_eq:
  "spc_serialize m =
     \<lparr>header =
        \<lparr>msgh_bits = (if items_ports (snd (content m)) = [] then 0 else MACH_MSGH_BITS_COMPLEX)
                       OR MACH_MSGH_BITS (type (remote_port m)) (type (local_port m)),
         msgh_size = of_nat (sizeof_mach_msg_header
                        + length (descriptor_region (items_ports (snd (content m)))
                                  @ xpc_magic @ wire_value (SPC_DICT (content m)))),
         msgh_remote_port = name (remote_port m),
         msgh_local_port = name (local_port m),
         msgh_id = msg_id m\<rparr>,
      buf = descriptor_region (items_ports (snd (content m)))
              @ xpc_magic @ wire_value (SPC_DICT (content m))\<rparr>"
proof -
  obtain n items where c: "content m = (n, items)" by (cases "content m")
  show ?thesis
    unfolding spc_serialize_def c
    by (simp add: Let_def split_beta serialize_effect descriptor_region_def
          sizeof_mach_msg_header_def sizeof_mach_msg_body_def
          sizeof_mach_msg_port_descriptor_def xpc_magic_def wire_container_def
          del: of_nat_add of_nat_mult)
       (simp add: mult.commute)
qed

lemma small_word_bits:
  fixes w :: uint32
  assumes "unat w < 256" "bit w n"
  shows "n < 8"
proof (rule ccontr)
  assume "\<not> n < 8"
  then have "(2::nat) ^ 8 \<le> 2 ^ n"
    by (intro power_increasing) simp_all
  then have "unat w < 2 ^ n"
    using assms(1) by simp
  then have "\<not> bit (unat w) n"
    by (simp add: bit_iff_odd)
  then show False
    using assms(2) by (simp add: bit_unsigned_iff)
qed

lemma bit_complex: "bit MACH_MSGH_BITS_COMPLEX n \<longleftrightarrow> n = 31"
proof -
  have e: "MACH_MSGH_BITS_COMPLEX = 2 ^ 31"
    by (simp add: MACH_MSGH_BITS_COMPLEX_def)
  show ?thesis
    unfolding e bit_exp_iff by auto
qed

lemma bits_not_complex:
  assumes "unat rt < 256" "unat lt < 256"
  shows "MACH_MSGH_BITS rt lt AND MACH_MSGH_BITS_COMPLEX = 0"
proof (rule bit_word_eqI)
  fix n assume "n < LENGTH(32)"
  have "\<not> bit rt 31" using small_word_bits [OF assms(1), of 31] by auto
  moreover have "\<not> bit lt 23" using small_word_bits [OF assms(2), of 23] by auto
  ultimately show "bit (MACH_MSGH_BITS rt lt AND MACH_MSGH_BITS_COMPLEX) n = bit (0 :: uint32) n"
    by (auto simp add: MACH_MSGH_BITS_def bit_complex bit_and_iff bit_or_iff bit_push_bit_iff)
qed

lemma bits_complex:
  "(MACH_MSGH_BITS_COMPLEX OR x) AND MACH_MSGH_BITS_COMPLEX \<noteq> 0"
proof -
  have "bit ((MACH_MSGH_BITS_COMPLEX OR x) AND MACH_MSGH_BITS_COMPLEX) 31"
    by (simp add: bit_complex bit_and_iff bit_or_iff)
  then show ?thesis
    by auto
qed

lemma peek_avail:
  assumes "avail r = xs" "k < length xs"
  shows "drop (r_ptr r + k) (r_mem r) = xs ! k # drop (Suc (r_ptr r + k)) (r_mem r)"
proof -
  have l: "k < r_end r - r_ptr r" "k < length (drop (r_ptr r) (r_mem r))"
    using assms by (auto simp add: avail_def)
  then have "r_ptr r + k < length (r_mem r)"
    by simp
  moreover have "xs ! k = r_mem r ! (r_ptr r + k)"
    using l assms(1) [symmetric] by (simp add: avail_def)
  ultimately show ?thesis
    by (simp add: Cons_nth_drop_Suc)
qed

lemma port_descriptor_fields:
  "port_descriptor_bytes p ! 11 = MACH_MSG_PORT_DESCRIPTOR"
  "port_descriptor_bytes p ! 10 = ucast (type p)"
  "take 4 (port_descriptor_bytes p) = uint32_bytes (name p)"
  by (simp_all add: port_descriptor_bytes_def nth_append)

declare spc_deserialize_descriptors.simps [simp del]

lemma deserialize_descriptors_ports:
  assumes "avail r = concat (map port_descriptor_bytes ps) @ rest" "r_ptr r \<le> r_end r"
    and "\<forall>p\<in>set ps. unat (type p) < 256" "cnt = i + length ps"
  shows "spc_deserialize_descriptors r i cnt
          = Inr (r\<lparr>r_ptr := r_ptr r + 12 * length ps, r_ports := r_ports r @ ps\<rparr>)"
  using assms
proof (induction ps arbitrary: r i)
  case Nil
  then show ?case
    by (subst spc_deserialize_descriptors.simps) simp
next
  case (Cons p ps)
  let ?d = "port_descriptor_bytes p"
  let ?r1 = "r\<lparr>r_ptr := r_ptr r + 12, r_ports := r_ports r @ [p]\<rparr>"
  have av: "avail r = ?d @ concat (map port_descriptor_bytes ps) @ rest"
    using Cons.prems(1) by simp
  have pk: "drop (r_ptr r + 11) (r_mem r) = MACH_MSG_PORT_DESCRIPTOR # drop (Suc (r_ptr r + 11)) (r_mem r)"
    using peek_avail [OF av, of 11] by (simp add: nth_append port_descriptor_fields)
  have rd: "spc_read r sizeof_mach_msg_port_descriptor = Inr (?d, r\<lparr>r_ptr := r_ptr r + 12\<rparr>)"
    using spc_read_avail [of 12 r] Cons.prems(2) av
    by (simp add: sizeof_mach_msg_port_descriptor_def)
  have p: "\<lparr>name = of_nat (le_nat (take 4 ?d)), type = ucast (?d ! 10)\<rparr> = p"
    using Cons.prems(3) by (simp add: port_descriptor_fields ucast_ucast_small)
  have b: "r_ptr r + 12 \<le> r_end r"
    using avail_bound [OF av Cons.prems(2)] by simp
  have "spc_deserialize_descriptors ?r1 (i + 1) cnt
      = Inr (?r1\<lparr>r_ptr := r_ptr ?r1 + 12 * length ps, r_ports := r_ports ?r1 @ ps\<rparr>)"
  proof (rule Cons.IH)
    show "avail ?r1 = concat (map port_descriptor_bytes ps) @ rest"
      using av by simp
    show "r_ptr ?r1 \<le> r_end ?r1" using b by simp
    show "\<forall>p\<in>set ps. unat (type p) < 256" using Cons.prems(3) by simp
    show "cnt = i + 1 + length ps" using Cons.prems(4) by simp
  qed
  then show ?case
    using Cons.prems(4) pk rd p
    by (subst spc_deserialize_descriptors.simps) (simp add: add.assoc)
qed

lemma well_formed_ports:
  "well_formed v \<Longrightarrow> \<forall>p\<in>set (value_ports v). unat (type p) < 256"
  "well_formed_values vs \<Longrightarrow> \<forall>p\<in>set (values_ports vs). unat (type p) < 256"
  "well_formed_items items \<Longrightarrow> \<forall>p\<in>set (items_ports items). unat (type p) < 256"
  by (induction v and vs and items rule: wire_value_wire_values_wire_items.induct) auto

lemma depth_le_length:
  "depth v \<le> length (wire_value v)"
  "depth_values vs \<le> length (wire_values vs)"
  "depth_items items \<le> length (wire_items items)"
  by (induction v and vs and items rule: wire_value_wire_values_wire_items.induct)
     (simp_all add: wire_container_def)

lemma roundtrip:
  assumes wf: "well_formed_message m" and nofd: "no_fd (SPC_DICT (content m))"
  shows "spc_deserialize (spc_serialize m) =
    Some (Inr (Some
      \<lparr>remote_port =
         \<lparr>name = name (remote_port m),
          type = MACH_MSGH_BITS_REMOTE (msgh_bits (header (spc_serialize m)))\<rparr>,
       local_port =
         \<lparr>name = name (remote_port m),
          type = MACH_MSGH_BITS_LOCAL (msgh_bits (header (spc_serialize m)))\<rparr>,
       msg_id = msg_id m,
       content = (fst (content m), rev_dicts_items (snd (content m)))\<rparr>))"
proof -
  obtain n items where c: "content m = (n, items)" by (cases "content m")
  define v where "v = SPC_DICT (content m)"
  define ports where "ports = items_ports items"
  define D where "D = descriptor_region ports"
  define body where "body = D @ xpc_magic @ wire_value v"
  define W where "W = spc_serialize m"
  define R0 where "R0 = \<lparr>r_mem = body, r_end = length body, r_ptr = 0, r_next_port = 0,
                          r_ports = []\<rparr>"
  define r2 where "r2 = R0\<lparr>r_ptr := length D, r_ports := ports\<rparr>"
  define r3 where "r3 = r2\<lparr>r_ptr := r_ptr r2 + 8\<rparr>"
  have W: "buf W = body" "msgh_id (header W) = msg_id m"
      "msgh_remote_port (header W) = name (remote_port m)"
      "msgh_size (header W) = of_nat (sizeof_mach_msg_header + length body)"
      "msgh_bits (header W) = (if ports = [] then 0 else MACH_MSGH_BITS_COMPLEX)
                       OR MACH_MSGH_BITS (type (remote_port m)) (type (local_port m))"
    by (simp_all add: spc_serialize_eq c W_def body_def D_def ports_def v_def)
  have wfv: "well_formed v" and id: "msg_id m \<noteq> MSGID_CONNECTION_INTERRUPTED"
    and rt: "unat (type (remote_port m)) < 256" and lt: "unat (type (local_port m)) < 256"
    and sz: "sizeof_mach_msg_header + length body < 2 ^ 32"
    using wf W(1) by (simp_all add: well_formed_message_def v_def W_def)
  have usz: "unat (msgh_size (header W)) = sizeof_mach_msg_header + length body"
    unfolding W(4) using sz by (simp only: unat_of_nat_small)
  have R0: "r_ptr R0 = 0" "r_end R0 = length body" "r_next_port R0 = 0" "r_ports R0 = []"
      "avail R0 = body"
    by (simp_all add: R0_def avail_def)
  have xl: "length xpc_magic = 8"
    by (simp add: xpc_magic_def)
  have vp: "value_ports v = ports"
    by (simp add: v_def c ports_def)
  \<comment> \<open>the descriptors\<close>
  have stage1:
    "(if msgh_bits (header W) AND MACH_MSGH_BITS_COMPLEX \<noteq> 0
      then (case spc_read R0 sizeof_mach_msg_body of Inl e \<Rightarrow> Inl e
            | Inr (body, r1) \<Rightarrow>
                spc_deserialize_descriptors r1 0 (unat (of_nat (le_nat body) :: uint32)))
      else Inr R0) = Inr r2"
  proof (cases "ports = []")
    case True
    then have "r2 = R0"
      by (simp add: r2_def D_def descriptor_region_def R0_def)
    then show ?thesis
      using True bits_not_complex [OF rt lt] by (simp add: W(5))
  next
    case False
    define r1 where "r1 = R0\<lparr>r_ptr := r_ptr R0 + 4\<rparr>"
    have pl: "length ports < 2 ^ 32"
      using sz False by (simp add: body_def D_def length_descriptor_region)
    have D: "D = uint32_bytes (of_nat (length ports)) @ concat (map port_descriptor_bytes ports)"
      using False by (simp add: D_def descriptor_region_def)
    have "spc_read R0 4 = Inr (take 4 (avail R0), r1)"
      unfolding r1_def by (rule spc_read_avail) (simp_all add: R0 body_def D)
    then have rd: "spc_read R0 sizeof_mach_msg_body = Inr (uint32_bytes (of_nat (length ports)), r1)"
      by (simp add: R0 body_def D sizeof_mach_msg_body_def)
    have "spc_deserialize_descriptors r1 0 (length ports)
        = Inr (r1\<lparr>r_ptr := r_ptr r1 + 12 * length ports, r_ports := r_ports r1 @ ports\<rparr>)"
    proof (rule deserialize_descriptors_ports [where rest = "xpc_magic @ wire_value v"])
      show "avail r1 = concat (map port_descriptor_bytes ports) @ xpc_magic @ wire_value v"
        unfolding r1_def avail_advance by (simp add: R0 body_def D)
      show "r_ptr r1 \<le> r_end r1" by (simp add: r1_def R0_def body_def D)
      show "\<forall>p\<in>set ports. unat (type p) < 256"
        using well_formed_ports(1) [OF wfv] by (simp add: vp)
      show "length ports = 0 + length ports" by simp
    qed
    moreover have "r1\<lparr>r_ptr := r_ptr r1 + 12 * length ports, r_ports := r_ports r1 @ ports\<rparr> = r2"
      by (simp add: r1_def r2_def R0_def D)
    ultimately show ?thesis
      using False rd bits_complex pl
      by (simp add: W(5) unat_of_nat_small)
  qed
  \<comment> \<open>the magic\<close>
  have av2: "avail r2 = xpc_magic @ wire_value v"
    by (simp add: r2_def R0_def avail_def body_def)
  have b2: "r_ptr r2 \<le> r_end r2"
    by (simp add: r2_def R0_def body_def)
  have "spc_read r2 8 = Inr (take 8 (avail r2), r3)"
    unfolding r3_def using b2 by (intro spc_read_avail) (simp_all add: av2 xl)
  then have stage2: "spc_read r2 8 = Inr (xpc_magic, r3)"
    by (simp add: av2 xl)
  \<comment> \<open>the root value\<close>
  define d where "d = Suc (unat (msgh_size (header W)))"
  have stage3: "spc_deserialize_value d r3
         = Some (Inr (rev_dicts v,
             r3\<lparr>r_ptr := r_ptr r3 + length (wire_value v),
               r_next_port := r_next_port r3 + length (value_ports v)\<rparr>))"
  proof (rule deserialize_wire(1) [where rest = "[]" and ps = "[]"])
    show "well_formed v" by (rule wfv)
    show "no_fd v" using nofd by (simp add: v_def)
    show "avail r3 = wire_value v @ []"
      unfolding r3_def avail_advance by (simp add: av2 xl)
    show "r_ptr r3 \<le> r_end r3" by (simp add: r3_def r2_def R0_def body_def xl)
    show "drop (r_next_port r3) (r_ports r3) = value_ports v @ []"
      by (simp add: r3_def r2_def R0_def vp)
    show "depth v \<le> d"
      using depth_le_length(1) [of v] unfolding d_def usz body_def by simp
  qed
  have r0: "\<lparr>r_mem = buf W,
             r_end = unat (msgh_size (header W)) - sizeof_mach_msg_header,
             r_ptr = 0, r_next_port = 0, r_ports = []\<rparr> = R0"
    unfolding usz W(1) R0_def by simp
  have rv: "rev_dicts v = SPC_DICT (fst (content m), rev_dicts_items (snd (content m)))"
    by (simp add: v_def c)
  have "spc_deserialize W =
    Some (Inr (Some
      \<lparr>remote_port =
         \<lparr>name = name (remote_port m), type = MACH_MSGH_BITS_REMOTE (msgh_bits (header W))\<rparr>,
       local_port =
         \<lparr>name = name (remote_port m), type = MACH_MSGH_BITS_LOCAL (msgh_bits (header W))\<rparr>,
       msg_id = msg_id m,
       content = (fst (content m), rev_dicts_items (snd (content m)))\<rparr>))"
    unfolding spc_deserialize_def spc_deserialize_depth_def Let_def r0 d_def [symmetric]
    using id by (simp add: stage1 stage2 stage3 rv W(2,3))
  then show ?thesis
    by (simp add: W_def)
qed

section \<open>Properties of the serializer\<close>

lemma wire_dvd:
  "4 dvd length (wire_value v)"
  "4 dvd length (wire_values vs)"
  "4 dvd length (wire_items items)"
  by (induction v and vs and items rule: wire_value_wire_values_wire_items.induct)
     (simp_all add: wire_container_def padded_dvd)

lemma replicate_numeral:
  "replicate (numeral k) x = x # replicate (pred_numeral k) x"
proof -
  have "numeral k = Suc (pred_numeral k)" by (rule numeral_eq_Suc)
  then show ?thesis by (simp only: replicate.simps)
qed

text \<open>
  Claim C10. For every value and every writer state, the number returned by
  \<open>spc_serialize_value\<close> is the number of bytes by which the cursor has advanced; the
  same holds for \<open>spc_write_array\<close> and \<open>spc_write_dict\<close>, whose result counts the
  byte-size field. For the three port-typed values the number is 4: the port goes to
  the port list and the buffer receives the tag only.
\<close>

theorem serialize_value_returns_cursor_advance:
  "snd (spc_serialize_value w v)
     = length (w_buf (fst (spc_serialize_value w v))) - length (w_buf w)
   \<and> snd (spc_write_array w a)
     = length (w_buf (fst (spc_write_array w a))) - length (w_buf w)
   \<and> snd (spc_write_dict w d)
     = length (w_buf (fst (spc_write_dict w d))) - length (w_buf w)
   \<and> snd (spc_serialize_value w (SPC_FD p)) = 4
   \<and> snd (spc_serialize_value w (SPC_SEND_PORT p)) = 4
   \<and> snd (spc_serialize_value w (SPC_RECV_PORT p)) = 4
   \<and> w_buf (fst (spc_serialize_value w (SPC_FD p))) = w_buf w @ uint32_bytes SPC_TYPE_FD
   \<and> w_buf (fst (spc_serialize_value w (SPC_SEND_PORT p)))
       = w_buf w @ uint32_bytes SPC_TYPE_SEND_PORT
   \<and> w_buf (fst (spc_serialize_value w (SPC_RECV_PORT p)))
       = w_buf w @ uint32_bytes SPC_TYPE_RECV_PORT"
  by (simp add: serialize_effect split_beta)

text \<open>
  Claim C5. \<open>spc_write_padded\<close> appends the bytes and then exactly
  \<open>(4 - len mod 4) mod 4\<close> zero bytes. A cursor that is a multiple of 4 before a
  padded write is a multiple of 4 after it; the same holds for a string (key or value)
  and for every value record, so the cursor is a multiple of 4 at every padded write
  of a serialization that starts at offset 0.
\<close>

theorem write_padded_zero_bytes_and_alignment:
  "w_buf (fst (spc_write_padded w bs))
     = w_buf w @ bs @ replicate ((4 - length bs mod 4) mod 4) 0
   \<and> (4 dvd length (w_buf w) \<longrightarrow>
        4 dvd length (w_buf (fst (spc_write_padded w bs)))
        \<and> 4 dvd length (w_buf (fst (spc_write_str w str)))
        \<and> 4 dvd length (w_buf (fst (spc_serialize_value w v))))"
  using padded_dvd [of bs] padded_dvd [of "str @ [0]"] wire_dvd(1) [of v]
  by (simp add: serialize_effect) (simp add: padded_def)

theorem write_padded_zero_bytes_and_alignment_witness:
  "4 dvd length (w_buf \<lparr>w_buf = [], w_cap = 0, w_ports = []\<rparr>)
   \<and> w_buf (fst (spc_write_padded \<lparr>w_buf = [], w_cap = 0, w_ports = []\<rparr> [1, 2, 3, 4, 5]))
       = [1, 2, 3, 4, 5, 0, 0, 0]
   \<and> 4 dvd length (w_buf (fst (spc_write_padded \<lparr>w_buf = [], w_cap = 0, w_ports = []\<rparr>
                                 [1, 2, 3, 4, 5])))"
proof -
  let ?w = "\<lparr>w_buf = [], w_cap = 0, w_ports = []\<rparr>"
  note inst = write_padded_zero_bytes_and_alignment [of ?w "[1, 2, 3, 4, 5]" "[]" SPC_NULL]
  have h: "4 dvd length (w_buf ?w)"
    by simp
  from inst h have a: "4 dvd length (w_buf (fst (spc_write_padded ?w [1, 2, 3, 4, 5])))"
    by blast
  from inst have "w_buf (fst (spc_write_padded ?w [1, 2, 3, 4, 5]))
      = w_buf ?w @ [1, 2, 3, 4, 5] @ replicate ((4 - length [1, 2, 3, 4, 5 :: byte] mod 4) mod 4) 0"
    by blast
  then have b: "w_buf (fst (spc_write_padded ?w [1, 2, 3, 4, 5])) = [1, 2, 3, 4, 5, 0, 0, 0]"
    by (simp add: replicate_numeral padded_def)
  from h a b show ?thesis
    by blast
qed

text \<open>
  Claim C4, as amended. The four bytes at the position of the byte-size field of a
  container hold the number of payload bytes written after the field, modulo
  \<open>2 ^ 32\<close>; the payload is the element count and the encoded entries; the container
  encoder returns the number of payload bytes plus 4.
\<close>

theorem container_byte_size_field:
  "le_nat (take 4 (drop (length (w_buf w)) (w_buf (fst (spc_write_array w a)))))
     = (length (w_buf (fst (spc_write_array w a))) - (length (w_buf w) + 4)) mod 2 ^ 32
   \<and> drop (length (w_buf w) + 4) (w_buf (fst (spc_write_array w a)))
     = uint32_bytes (of_nat (length a)) @ wire_values a
   \<and> snd (spc_write_array w a)
     = (length (w_buf (fst (spc_write_array w a))) - (length (w_buf w) + 4)) + 4
   \<and> le_nat (take 4 (drop (length (w_buf w)) (w_buf (fst (spc_write_dict w d)))))
     = (length (w_buf (fst (spc_write_dict w d))) - (length (w_buf w) + 4)) mod 2 ^ 32
   \<and> drop (length (w_buf w) + 4) (w_buf (fst (spc_write_dict w d)))
     = uint32_bytes (of_nat (fst d)) @ wire_items (snd d)
   \<and> snd (spc_write_dict w d)
     = (length (w_buf (fst (spc_write_dict w d))) - (length (w_buf w) + 4)) + 4"
proof -
  have a: "w_buf (fst (spc_write_array w a))
             = w_buf w @ wire_container (of_nat (length a)) (wire_values a)"
    by (simp add: serialize_effect)
  have d: "w_buf (fst (spc_write_dict w d))
             = w_buf w @ wire_container (of_nat (fst d)) (wire_items (snd d))"
    by (simp add: serialize_effect)
  show ?thesis
    using container_field(2,3,4) [OF a] container_field(2,3,4) [OF d]
    by (simp only: serialize_effect)
qed

lemma byte_size_field_wraps:
  assumes "length d = 4294967288"
  shows "le_nat (take 4 (drop 0 (w_buf (fst (spc_write_array
            \<lparr>w_buf = [], w_cap = 0, w_ports = []\<rparr> [SPC_DATA d])))))
         \<noteq> length (w_buf (fst (spc_write_array
            \<lparr>w_buf = [], w_cap = 0, w_ports = []\<rparr> [SPC_DATA d]))) - (0 + 4)"
proof -
  let ?w = "\<lparr>w_buf = [], w_cap = 0, w_ports = []\<rparr>"
  let ?w' = "fst (spc_write_array ?w [SPC_DATA d])"
  have "length (padded d) = 4294967288"
    using assms by (simp add: length_padded)
  then have "length (wire_values [SPC_DATA d]) = 4294967296"
    by simp
  then have len: "length (w_buf ?w') = 4294967304"
    by (simp add: serialize_effect wire_container_def)
  have "w_buf ?w' = w_buf ?w @ wire_container (of_nat (length [SPC_DATA d])) (wire_values [SPC_DATA d])"
    by (simp only: serialize_effect)
  then have "le_nat (take 4 (drop (length (w_buf ?w)) (w_buf ?w')))
          = (length (w_buf ?w') - (length (w_buf ?w) + 4)) mod 2 ^ 32"
    by (rule container_field(2))
  then have "le_nat (take 4 (drop 0 (w_buf ?w'))) = 4"
    by (simp add: len)
  then show ?thesis
    by (simp add: len)
qed

theorem container_byte_size_field_counterexample:
  "le_nat (take 4 (drop 0 (w_buf (fst (spc_write_array
      \<lparr>w_buf = [], w_cap = 0, w_ports = []\<rparr> [SPC_DATA (replicate 4294967288 0)])))))
   \<noteq> length (w_buf (fst (spc_write_array
      \<lparr>w_buf = [], w_cap = 0, w_ports = []\<rparr> [SPC_DATA (replicate 4294967288 0)]))) - (0 + 4)"
  by (rule byte_size_field_wraps) (rule length_replicate)

section \<open>Evaluation at an input\<close>

text \<open>Rules that evaluate the functions at an input given by its bytes.\<close>

lemmas deserialize_value_numeral =
  spc_deserialize_value.simps(2) [of "pred_numeral k" r, folded numeral_eq_Suc] for k r

lemmas reader_eval = deserialize_value_numeral
  spc_read_def spc_read_uint32_def spc_read_uint64_def spc_read_int64_def spc_read_double_def
  spc_read_padded_def spc_read_str_def strdup_def spc_reader_next_port_def
  spc_deserialize_value.simps spc_deserialize_array.simps spc_deserialize_dict.simps
  spc_deserialize_array_loop.simps spc_deserialize_dict_loop.simps
  spc_deserialize_descriptors.simps
  spc_array_create_def spc_array_set_value_def spc_dictionary_create_def SPC_NULL_PORT_def
  SPC_TYPE_defs Let_def

lemmas message_eval =
  spc_deserialize_def spc_deserialize_depth_def MSGID_CONNECTION_INTERRUPTED_def
  MACH_MSGH_BITS_COMPLEX_def MACH_MSGH_BITS_REMOTE_def MACH_MSGH_BITS_LOCAL_def
  MACH_MSGH_BITS_def MACH_MSG_PORT_DESCRIPTOR_def MACH_MSG_OOL_DESCRIPTOR_def
  MACH_MSG_OOL_PORTS_DESCRIPTOR_def
  sizeof_mach_msg_header_def sizeof_mach_msg_body_def sizeof_mach_msg_port_descriptor_def
  sizeof_mach_msg_ool_descriptor_def sizeof_mach_msg_ool_ports_descriptor_def xpc_magic_def

lemmas writer_eval =
  spc_serialize_eq descriptor_region_def port_descriptor_bytes_def wire_container_def
  padded_def uint32_bytes_def uint64_bytes_def uuid_bytes_def replicate_numeral

text \<open>The message with the content \<open>{"f": FD}\<close>, serialized and deserialized.\<close>

lemma serialize_fd_message:
  "spc_serialize
      \<lparr>remote_port = \<lparr>name = 0x103, type = 19\<rparr>, local_port = \<lparr>name = 0x207, type = 21\<rparr>,
       msg_id = 0, content = (1, [([0x66], SPC_FD \<lparr>name = 0x1503, type = 17\<rparr>)])\<rparr>
   = \<lparr>header = \<lparr>msgh_bits = 0x80001513, msgh_size = 68, msgh_remote_port = 0x103,
                  msgh_local_port = 0x207, msgh_id = 0\<rparr>,
       buf = [0x01, 0x00, 0x00, 0x00,
              0x03, 0x15, 0x00, 0x00,  0x00, 0x00, 0x00, 0x00,  0x00, 0x00, 0x11, 0x00,
              0x43, 0x50, 0x58, 0x40,  0x05, 0x00, 0x00, 0x00,
              0x00, 0xf0, 0x00, 0x00,  0x0c, 0x00, 0x00, 0x00,  0x01, 0x00, 0x00, 0x00,
              0x66, 0x00, 0x00, 0x00,  0x00, 0xb0, 0x00, 0x00]\<rparr>"
  by (simp add: writer_eval message_eval SPC_TYPE_defs)

lemma deserialize_fd_message:
  "spc_deserialize
     \<lparr>header = \<lparr>msgh_bits = 0x80001513, msgh_size = 68, msgh_remote_port = 0x103,
                  msgh_local_port = 0x207, msgh_id = 0\<rparr>,
       buf = [0x01, 0x00, 0x00, 0x00,
              0x03, 0x15, 0x00, 0x00,  0x00, 0x00, 0x00, 0x00,  0x00, 0x00, 0x11, 0x00,
              0x43, 0x50, 0x58, 0x40,  0x05, 0x00, 0x00, 0x00,
              0x00, 0xf0, 0x00, 0x00,  0x0c, 0x00, 0x00, 0x00,  0x01, 0x00, 0x00, 0x00,
              0x66, 0x00, 0x00, 0x00,  0x00, 0xb0, 0x00, 0x00]\<rparr>
   = Some (Inl (Exit_unsupported_value_type SPC_TYPE_FD))"
  by (simp add: message_eval reader_eval)

text \<open>The message with the content \<open>{"k": "v"}\<close> decodes.\<close>

lemma deserialize_string_message:
  "spc_deserialize
     \<lparr>header = \<lparr>msgh_bits = 0, msgh_size = 60, msgh_remote_port = 0x103,
                  msgh_local_port = 0x207, msgh_id = 0\<rparr>,
       buf = [0x43, 0x50, 0x58, 0x40,  0x05, 0x00, 0x00, 0x00,
              0x00, 0xf0, 0x00, 0x00,  0x14, 0x00, 0x00, 0x00,  0x01, 0x00, 0x00, 0x00,
              0x6b, 0x00, 0x00, 0x00,
              0x00, 0x90, 0x00, 0x00,  0x02, 0x00, 0x00, 0x00,  0x76, 0x00, 0x00, 0x00]\<rparr>
   = Some (Inr (Some \<lparr>remote_port = \<lparr>name = 0x103, type = 0\<rparr>,
        local_port = \<lparr>name = 0x103, type = 0\<rparr>,
        msg_id = 0, content = (1, [([0x6b], SPC_STRING [0x76])])\<rparr>))"
  by (simp add: message_eval reader_eval)

section \<open>The decoder returns or ends the process\<close>

lemma spc_read_Inr:
  "spc_read r n = Inr (bs, r') \<Longrightarrow> r_end r' = r_end r \<and> r_ptr r' = r_ptr r + n"
  by (auto simp add: spc_read_def split: if_splits)

lemma spc_read_uint32_Inr:
  "spc_read_uint32 r = Inr (x, r') \<Longrightarrow> r_end r' = r_end r \<and> r_ptr r' = r_ptr r + 4"
  by (auto simp add: spc_read_uint32_def split: sum.splits dest: spc_read_Inr)

lemma spc_read_uint32_bound:
  "spc_read_uint32 r = Inr (x, r') \<Longrightarrow> r_ptr r + 4 \<le> r_end r"
  by (auto simp add: spc_read_uint32_def spc_read_def split: sum.splits if_splits)

lemma spc_read_uint64_Inr:
  "spc_read_uint64 r = Inr (x, r') \<Longrightarrow> r_end r' = r_end r \<and> r_ptr r' = r_ptr r + 8"
  "spc_read_int64 r = Inr (x, r') \<Longrightarrow> r_end r' = r_end r \<and> r_ptr r' = r_ptr r + 8"
  "spc_read_double r = Inr (x, r') \<Longrightarrow> r_end r' = r_end r \<and> r_ptr r' = r_ptr r + 8"
  by (auto simp add: spc_read_uint64_def spc_read_int64_def spc_read_double_def
        split: sum.splits dest: spc_read_Inr)

lemma spc_read_padded_Inr:
  "spc_read_padded r n = Inr (bs, r') \<Longrightarrow> r_end r' = r_end r \<and> r_ptr r \<le> r_ptr r'"
  by (auto simp add: spc_read_padded_def Let_def dest: spc_read_Inr)

lemma spc_read_str_Inr:
  "spc_read_str r = Inr (p, r') \<Longrightarrow> r_end r' = r_end r \<and> r_ptr r \<le> r_ptr r'"
  by (auto simp add: spc_read_str_def split: option.splits sum.splits dest: spc_read_padded_Inr)

lemma spc_reader_next_port_eq:
  "spc_reader_next_port r = (p, r') \<Longrightarrow> r_end r' = r_end r \<and> r_ptr r' = r_ptr r"
  by (auto simp add: spc_reader_next_port_def split: if_splits)

lemma deserialize_mono:
  "\<forall>v r'. spc_deserialize_value d r = Some (Inr (v, r'))
      \<longrightarrow> r_end r' = r_end r \<and> r_ptr r \<le> r_ptr r'"
  "\<forall>v r'. spc_deserialize_array d r = Some (Inr (v, r'))
      \<longrightarrow> r_end r' = r_end r \<and> r_ptr r \<le> r_ptr r'"
  "\<forall>v r'. spc_deserialize_array_loop d r i len acc = Some (Inr (v, r'))
      \<longrightarrow> r_end r' = r_end r \<and> r_ptr r \<le> r_ptr r'"
  "\<forall>v r'. spc_deserialize_dict d r = Some (Inr (v, r'))
      \<longrightarrow> r_end r' = r_end r \<and> r_ptr r \<le> r_ptr r'"
  "\<forall>v r'. spc_deserialize_dict_loop d r i dict = Some (Inr (v, r'))
      \<longrightarrow> r_end r' = r_end r \<and> r_ptr r \<le> r_ptr r'"
proof (induction d r and d r and d r i len acc and d r and d r i dict
    rule: spc_deserialize_value_spc_deserialize_array_spc_deserialize_array_loop_spc_deserialize_dict_spc_deserialize_dict_loop.induct)
  case (1 r)
  then show ?case by (simp add: spc_deserialize_value.simps)
next
  case (2 depth r)
  show ?case
  proof (intro allI impI)
    fix v r' assume a: "spc_deserialize_value (Suc depth) r = Some (Inr (v, r'))"
    then obtain t r1 where t: "spc_read_uint32 r = Inr (t, r1)"
      by (auto simp add: spc_deserialize_value.simps split: sum.splits)
    note m1 = spc_read_uint32_Inr [OF t]
    from a t m1 2 [OF t refl] show "r_end r' = r_end r \<and> r_ptr r \<le> r_ptr r'"
      by (auto simp add: spc_deserialize_value.simps split: if_splits sum.splits option.splits
            prod.splits
            dest!: spc_read_uint32_Inr spc_read_uint64_Inr spc_read_Inr spc_read_padded_Inr
                   spc_read_str_Inr spc_reader_next_port_eq)
  qed
next
  case (3 depth r)
  show ?case
  proof (intro allI impI)
    fix v r' assume a: "spc_deserialize_array depth r = Some (Inr (v, r'))"
    then obtain x r1 where t1: "spc_read_uint32 r = Inr (x, r1)"
      by (auto simp add: spc_deserialize_array.simps split: sum.splits)
    with a obtain len r2 where t2: "spc_read_uint32 r1 = Inr (len, r2)"
      by (auto simp add: spc_deserialize_array.simps split: sum.splits)
    from a t1 t2 have "spc_deserialize_array_loop depth r2 0 (unat len) spc_array_create
        = Some (Inr (v, r'))"
      by (simp add: spc_deserialize_array.simps)
    with 3 [OF t1 refl t2 refl] have "r_end r' = r_end r2 \<and> r_ptr r2 \<le> r_ptr r'"
      by blast
    with spc_read_uint32_Inr [OF t1] spc_read_uint32_Inr [OF t2]
    show "r_end r' = r_end r \<and> r_ptr r \<le> r_ptr r'"
      by simp
  qed
next
  case (4 depth r i len array)
  note unfold = spc_deserialize_array_loop.simps [of depth r i len array]
  show ?case
  proof (intro allI impI)
    fix v r' assume a: "spc_deserialize_array_loop depth r i len array = Some (Inr (v, r'))"
    show "r_end r' = r_end r \<and> r_ptr r \<le> r_ptr r'"
    proof (cases "i < len")
      case False
      with a unfold show ?thesis by simp
    next
      case True
      with a unfold obtain x r1 where
        v1: "spc_deserialize_value depth r = Some (Inr (x, r1))" and
        l: "spc_deserialize_array_loop depth r1 (i + 1) len (spc_array_set_value array i x)
              = Some (Inr (v, r'))"
        by (auto split: option.splits sum.splits)
      from 4(1) [OF True] v1 have "r_end r1 = r_end r \<and> r_ptr r \<le> r_ptr r1"
        by blast
      moreover from 4(2) [OF True v1 refl refl] l have "r_end r' = r_end r1 \<and> r_ptr r1 \<le> r_ptr r'"
        by blast
      ultimately show ?thesis by simp
    qed
  qed
next
  case (5 depth r)
  show ?case
  proof (intro allI impI)
    fix v r' assume a: "spc_deserialize_dict depth r = Some (Inr (v, r'))"
    then obtain x r1 where t1: "spc_read_uint32 r = Inr (x, r1)"
      by (auto simp add: spc_deserialize_dict.simps split: sum.splits)
    with a obtain n r2 where t2: "spc_read_uint32 r1 = Inr (n, r2)"
      by (auto simp add: spc_deserialize_dict.simps split: sum.splits)
    from a t1 t2 have "spc_deserialize_dict_loop depth r2 0 (unat n, snd spc_dictionary_create)
        = Some (Inr (v, r'))"
      by (simp add: spc_deserialize_dict.simps)
    with 5 [OF t1 refl t2 refl] have "r_end r' = r_end r2 \<and> r_ptr r2 \<le> r_ptr r'"
      by blast
    with spc_read_uint32_Inr [OF t1] spc_read_uint32_Inr [OF t2]
    show "r_end r' = r_end r \<and> r_ptr r \<le> r_ptr r'"
      by simp
  qed
next
  case (6 depth r i num_items items)
  note unfold = spc_deserialize_dict_loop.simps [of depth r i num_items items]
  show ?case
  proof (intro allI impI)
    fix v r'
    assume a: "spc_deserialize_dict_loop depth r i (num_items, items) = Some (Inr (v, r'))"
    show "r_end r' = r_end r \<and> r_ptr r \<le> r_ptr r'"
    proof (cases "i < num_items")
      case False
      with a unfold show ?thesis by simp
    next
      case True
      with a unfold obtain p r1 where k: "spc_read_str r = Inr (p, r1)"
        by (auto split: sum.splits)
      with a unfold True obtain key where k': "strdup p = Inr key"
        by (auto split: sum.splits)
      with a unfold True k obtain x r2 where
        v1: "spc_deserialize_value depth r1 = Some (Inr (x, r2))" and
        l: "spc_deserialize_dict_loop depth r2 (i + 1) (num_items, (key, x) # items)
              = Some (Inr (v, r'))"
        by (auto split: option.splits sum.splits)
      from 6(1) [OF True k refl k'] v1 have "r_end r2 = r_end r1 \<and> r_ptr r1 \<le> r_ptr r2"
        by blast
      moreover from 6(2) [OF True k refl k' v1 refl refl] l
      have "r_end r' = r_end r2 \<and> r_ptr r2 \<le> r_ptr r'"
        by blast
      ultimately show ?thesis
        using spc_read_str_Inr [OF k] by simp
    qed
  qed
qed

lemma deserialize_value_None:
  assumes "spc_deserialize_value (Suc d) r = None"
  obtains t r1 where "spc_read_uint32 r = Inr (t, r1)"
    and "(t = SPC_TYPE_ARRAY \<and> spc_deserialize_array d r1 = None)
         \<or> (t = SPC_TYPE_DICT \<and> t \<noteq> SPC_TYPE_ARRAY \<and> spc_deserialize_dict d r1 = None)"
proof (cases "spc_read_uint32 r")
  case (Inl e)
  with assms show ?thesis by (simp add: spc_deserialize_value.simps)
next
  case (Inr p)
  then obtain t r1 where t: "spc_read_uint32 r = Inr (t, r1)" by (cases p) auto
  have "(t = SPC_TYPE_ARRAY \<and> spc_deserialize_array d r1 = None)
         \<or> (t = SPC_TYPE_DICT \<and> t \<noteq> SPC_TYPE_ARRAY \<and> spc_deserialize_dict d r1 = None)"
  proof (cases "t = SPC_TYPE_ARRAY")
    case True
    with assms t show ?thesis
      by (simp add: spc_deserialize_value.simps SPC_TYPE_defs
            split: option.splits sum.splits prod.splits)
  next
    case False
    note na = this
    show ?thesis
    proof (cases "t = SPC_TYPE_DICT")
      case True
      with assms t show ?thesis
        by (simp add: spc_deserialize_value.simps SPC_TYPE_defs
            split: option.splits sum.splits prod.splits)
    next
      case False
      with na assms t show ?thesis
        by (simp add: spc_deserialize_value.simps split_beta split: if_splits sum.splits)
    qed
  qed
  with t that show ?thesis by blast
qed

lemma deserialize_total:
  "r_end r - r_ptr r < d \<longrightarrow> spc_deserialize_value d r \<noteq> None"
  "r_end r - r_ptr r < d \<longrightarrow> spc_deserialize_array d r \<noteq> None"
  "r_end r - r_ptr r < d \<longrightarrow> spc_deserialize_array_loop d r i len acc \<noteq> None"
  "r_end r - r_ptr r < d \<longrightarrow> spc_deserialize_dict d r \<noteq> None"
  "r_end r - r_ptr r < d \<longrightarrow> spc_deserialize_dict_loop d r i dict \<noteq> None"
proof (induction d r and d r and d r i len acc and d r and d r i dict
    rule: spc_deserialize_value_spc_deserialize_array_spc_deserialize_array_loop_spc_deserialize_dict_spc_deserialize_dict_loop.induct)
  case (1 r)
  then show ?case by simp
next
  case (2 depth r)
  show ?case
  proof
    assume b: "r_end r - r_ptr r < Suc depth"
    show "spc_deserialize_value (Suc depth) r \<noteq> None"
    proof
      assume "spc_deserialize_value (Suc depth) r = None"
      then obtain t r1 where t: "spc_read_uint32 r = Inr (t, r1)"
        and n: "(t = SPC_TYPE_ARRAY \<and> spc_deserialize_array depth r1 = None)
         \<or> (t = SPC_TYPE_DICT \<and> t \<noteq> SPC_TYPE_ARRAY \<and> spc_deserialize_dict depth r1 = None)"
        by (rule deserialize_value_None)
      from spc_read_uint32_Inr [OF t] spc_read_uint32_bound [OF t] b
      have b1: "r_end r1 - r_ptr r1 < depth" by simp
      from n show False
      proof
        assume a: "t = SPC_TYPE_ARRAY \<and> spc_deserialize_array depth r1 = None"
        then have "t \<noteq> SPC_TYPE_NULL" "t \<noteq> SPC_TYPE_BOOL" "t \<noteq> SPC_TYPE_UINT64"
          "t \<noteq> SPC_TYPE_INT64" "t \<noteq> SPC_TYPE_DOUBLE" "t \<noteq> SPC_TYPE_STRING" "t = SPC_TYPE_ARRAY"
          by (simp_all add: SPC_TYPE_defs)
        from 2(1) [OF t refl this] b1 a show False by simp
      next
        assume a: "t = SPC_TYPE_DICT \<and> t \<noteq> SPC_TYPE_ARRAY \<and> spc_deserialize_dict depth r1 = None"
        then have "t \<noteq> SPC_TYPE_NULL" "t \<noteq> SPC_TYPE_BOOL" "t \<noteq> SPC_TYPE_UINT64"
          "t \<noteq> SPC_TYPE_INT64" "t \<noteq> SPC_TYPE_DOUBLE" "t \<noteq> SPC_TYPE_STRING"
          "t \<noteq> SPC_TYPE_ARRAY" "t = SPC_TYPE_DICT"
          by (simp_all add: SPC_TYPE_defs)
        from 2(2) [OF t refl this] b1 a show False by simp
      qed
    qed
  qed
next
  case (3 depth r)
  show ?case
  proof
    assume b: "r_end r - r_ptr r < depth"
    show "spc_deserialize_array depth r \<noteq> None"
    proof (cases "spc_read_uint32 r")
      case (Inl e)
      then show ?thesis by (simp add: spc_deserialize_array.simps)
    next
      case (Inr p)
      then obtain x r1 where t1: "spc_read_uint32 r = Inr (x, r1)" by (cases p) auto
      show ?thesis
      proof (cases "spc_read_uint32 r1")
        case (Inl e)
        with t1 show ?thesis by (simp add: spc_deserialize_array.simps)
      next
        case (Inr q)
        then obtain len r2 where t2: "spc_read_uint32 r1 = Inr (len, r2)" by (cases q) auto
        from spc_read_uint32_Inr [OF t1] spc_read_uint32_Inr [OF t2] b
        have "r_end r2 - r_ptr r2 < depth" by simp
        with 3 [OF t1 refl t2 refl] t1 t2 show ?thesis
          by (simp add: spc_deserialize_array.simps)
      qed
    qed
  qed
next
  case (4 depth r i len array)
  note unfold = spc_deserialize_array_loop.simps [of depth r i len array]
  show ?case
  proof
    assume b: "r_end r - r_ptr r < depth"
    show "spc_deserialize_array_loop depth r i len array \<noteq> None"
    proof (cases "i < len")
      case False
      with unfold show ?thesis by simp
    next
      case True
      from 4(1) [OF True] b obtain res where v: "spc_deserialize_value depth r = Some res"
        by auto
      show ?thesis
      proof (cases res)
        case (Inl e)
        with unfold True v show ?thesis by simp
      next
        case (Inr p)
        then obtain x r1 where v1: "spc_deserialize_value depth r = Some (Inr (x, r1))"
          using v by (cases p) auto
        from deserialize_mono(1) [of depth r] v1
        have "r_end r1 = r_end r \<and> r_ptr r \<le> r_ptr r1" by blast
        with b have "r_end r1 - r_ptr r1 < depth" by arith
        with 4(2) [OF True v1 refl refl] unfold True v1 show ?thesis
          by simp
      qed
    qed
  qed
next
  case (5 depth r)
  show ?case
  proof
    assume b: "r_end r - r_ptr r < depth"
    show "spc_deserialize_dict depth r \<noteq> None"
    proof (cases "spc_read_uint32 r")
      case (Inl e)
      then show ?thesis by (simp add: spc_deserialize_dict.simps)
    next
      case (Inr p)
      then obtain x r1 where t1: "spc_read_uint32 r = Inr (x, r1)" by (cases p) auto
      show ?thesis
      proof (cases "spc_read_uint32 r1")
        case (Inl e)
        with t1 show ?thesis by (simp add: spc_deserialize_dict.simps)
      next
        case (Inr q)
        then obtain n r2 where t2: "spc_read_uint32 r1 = Inr (n, r2)" by (cases q) auto
        from spc_read_uint32_Inr [OF t1] spc_read_uint32_Inr [OF t2] b
        have "r_end r2 - r_ptr r2 < depth" by simp
        with 5 [OF t1 refl t2 refl] t1 t2 show ?thesis
          by (simp add: spc_deserialize_dict.simps)
      qed
    qed
  qed
next
  case (6 depth r i num_items items)
  note unfold = spc_deserialize_dict_loop.simps [of depth r i num_items items]
  show ?case
  proof
    assume b: "r_end r - r_ptr r < depth"
    show "spc_deserialize_dict_loop depth r i (num_items, items) \<noteq> None"
    proof (cases "i < num_items")
      case False
      with unfold show ?thesis by simp
    next
      case True
      show ?thesis
      proof (cases "spc_read_str r")
        case (Inl e)
        with unfold True show ?thesis by simp
      next
        case (Inr q)
        then obtain p r1 where k: "spc_read_str r = Inr (p, r1)" by (cases q) auto
        show ?thesis
        proof (cases "strdup p")
          case (Inl e)
          with unfold True k show ?thesis by simp
        next
          case (Inr key)
          from spc_read_str_Inr [OF k] b have b1: "r_end r1 - r_ptr r1 < depth" by arith
          from 6(1) [OF True k refl Inr] b1 obtain res where
            v: "spc_deserialize_value depth r1 = Some res" by auto
          show ?thesis
          proof (cases res)
            case (Inl e)
            with unfold True k Inr v show ?thesis by simp
          next
            case (Inr pr)
            then obtain x r2 where v1: "spc_deserialize_value depth r1 = Some (Inr (x, r2))"
              using v by (cases pr) auto
            from deserialize_mono(1) [of depth r1] v1
            have "r_end r2 = r_end r1 \<and> r_ptr r1 \<le> r_ptr r2" by blast
            with b1 have "r_end r2 - r_ptr r2 < depth" by arith
            with 6(2) [OF True k refl \<open>strdup p = Inr key\<close> v1 refl refl] unfold True k
              \<open>strdup p = Inr key\<close> v1
            show ?thesis by simp
          qed
        qed
      qed
    qed
  qed
qed

lemma spc_deserialize_descriptors_end:
  "spc_deserialize_descriptors r i n = Inr r' \<Longrightarrow> r_end r' = r_end r"
proof (induction r i n rule: spc_deserialize_descriptors.induct)
  case (1 r i n)
  note unfold = spc_deserialize_descriptors.simps [of r i n]
  show ?case
  proof (cases "i < n")
    case False
    with 1(4) unfold show ?thesis by simp
  next
    case True
    with 1(4) unfold obtain ty rest where pk: "drop (r_ptr r + 11) (r_mem r) = ty # rest"
      by (auto split: list.splits)
    from 1(4) unfold True pk 1(1) [OF True pk] 1(2) [OF True pk] 1(3) [OF True pk]
    show ?thesis
      by (auto split: if_splits sum.splits dest!: spc_read_Inr)
  qed
qed

text \<open>The bound that \<open>spc_deserialize\<close> passes is never used up: it returns or ends the process.\<close>

lemma spc_deserialize_total: "\<exists>res. spc_deserialize mach_msg = Some res"
proof -
  define d where "d = Suc (unat (msgh_size (header mach_msg)))"
  have v: "spc_deserialize_value d r \<noteq> None"
    if "r_end r = unat (msgh_size (header mach_msg)) - sizeof_mach_msg_header" for r
    using deserialize_total(1) [of r d] that by (simp add: d_def)
  show ?thesis
    unfolding spc_deserialize_def spc_deserialize_depth_def Let_def d_def [symmetric]
    by (auto split: sum.splits option.splits prod.splits spc_value.splits
          dest!: spc_read_Inr spc_deserialize_descriptors_end
          simp add: v)
qed

section \<open>Properties of the deserializer\<close>

text \<open>
  Claim C1, as amended. For every well-formed message whose id is not 71 and whose
  content holds no value with the tag \<open>SPC_TYPE_FD\<close>, deserializing the serialized
  message returns a message whose content has the same \<open>num_items\<close> and, value by
  value, the same tags, scalar bytes, strings, blobs, ports and array order as the
  content of the message, with the items of every dictionary in the reverse of their
  order on the wire.
\<close>

theorem roundtrip_reverses_dictionaries:
  assumes "well_formed_message m" and "no_fd (SPC_DICT (content m))"
  shows "\<exists>m'. spc_deserialize (spc_serialize m) = Some (Inr (Some m'))
           \<and> content m' = (fst (content m), rev_dicts_items (snd (content m)))"
  using roundtrip [OF assms] by simp

theorem roundtrip_reverses_dictionaries_witness:
  "well_formed_message
     \<lparr>remote_port = \<lparr>name = 0x103, type = 19\<rparr>, local_port = \<lparr>name = 0x207, type = 21\<rparr>,
      msg_id = 0,
      content = (2, [([0x6b], SPC_STRING [0x76]),
                     ([0x70], SPC_SEND_PORT \<lparr>name = 0x1503, type = 17\<rparr>)])\<rparr>
   \<and> no_fd (SPC_DICT (2, [([0x6b], SPC_STRING [0x76]),
                           ([0x70], SPC_SEND_PORT \<lparr>name = 0x1503, type = 17\<rparr>)]))
   \<and> (\<exists>m'. spc_deserialize (spc_serialize
          \<lparr>remote_port = \<lparr>name = 0x103, type = 19\<rparr>, local_port = \<lparr>name = 0x207, type = 21\<rparr>,
           msg_id = 0,
           content = (2, [([0x6b], SPC_STRING [0x76]),
                          ([0x70], SPC_SEND_PORT \<lparr>name = 0x1503, type = 17\<rparr>)])\<rparr>)
          = Some (Inr (Some m'))
        \<and> content m' = (2, [([0x70], SPC_SEND_PORT \<lparr>name = 0x1503, type = 17\<rparr>),
                             ([0x6b], SPC_STRING [0x76])]))"
proof -
  let ?m = "\<lparr>remote_port = \<lparr>name = 0x103, type = 19\<rparr>,
             local_port = \<lparr>name = 0x207, type = 21\<rparr>, msg_id = 0,
             content = (2, [([0x6b], SPC_STRING [0x76]),
                            ([0x70 :: byte], SPC_SEND_PORT \<lparr>name = 0x1503, type = 17\<rparr>)])\<rparr>"
  have wf: "well_formed_message ?m"
    by (simp add: well_formed_message_def writer_eval message_eval)
  have nofd: "no_fd (SPC_DICT (content ?m))"
    by simp
  from roundtrip_reverses_dictionaries [OF wf nofd] wf nofd show ?thesis
    by simp
qed

theorem roundtrip_counterexample:
  "spc_deserialize (spc_serialize
      \<lparr>remote_port = \<lparr>name = 0, type = 0\<rparr>, local_port = \<lparr>name = 0, type = 0\<rparr>,
       msg_id = 0, content = (2, [([0x61], SPC_NULL), ([0x62], SPC_BOOL 1)])\<rparr>)
    = Some (Inr (Some
      \<lparr>remote_port = \<lparr>name = 0, type = 0\<rparr>, local_port = \<lparr>name = 0, type = 0\<rparr>,
       msg_id = 0, content = (2, [([0x62], SPC_BOOL 1), ([0x61], SPC_NULL)])\<rparr>))
   \<and> (2 :: nat, [([0x62 :: byte], SPC_BOOL 1), ([0x61], SPC_NULL)])
       \<noteq> (2, [([0x61], SPC_NULL), ([0x62], SPC_BOOL 1)])"
proof -
  let ?m = "\<lparr>remote_port = \<lparr>name = 0, type = 0\<rparr>, local_port = \<lparr>name = 0, type = 0\<rparr>,
       msg_id = 0, content = (2, [([0x61 :: byte], SPC_NULL), ([0x62], SPC_BOOL 1)])\<rparr>"
  have wf: "well_formed_message ?m"
    by (simp add: well_formed_message_def writer_eval message_eval)
  have nofd: "no_fd (SPC_DICT (content ?m))"
    by simp
  from roundtrip [OF wf nofd] show ?thesis
    by (simp add: writer_eval message_eval)
qed

text \<open>
  Claim C2. The claim holds for \<open>remote_port\<close> and for the two port types. For
  \<open>local_port.name\<close> the source assigns \<open>msgh_remote_port\<close>: the message below has
  the remote port 0x103 and the local port 0x207, and the decoded message has the local
  port name 0x103.
\<close>

theorem deserialize_local_port_name_at_input:
  "spc_deserialize
     \<lparr>header = \<lparr>msgh_bits = 0x1513, msgh_size = 44, msgh_remote_port = 0x103,
                 msgh_local_port = 0x207, msgh_id = 0\<rparr>,
      buf = [0x43, 0x50, 0x58, 0x40,  0x05, 0x00, 0x00, 0x00,
             0x00, 0xf0, 0x00, 0x00,  0x04, 0x00, 0x00, 0x00,  0x00, 0x00, 0x00, 0x00]\<rparr>
   = Some (Inr (Some
       \<lparr>remote_port = \<lparr>name = 0x103, type = 0x13\<rparr>,
        local_port = \<lparr>name = 0x103, type = 0x15\<rparr>,
        msg_id = 0, content = (0, [])\<rparr>))"
  by (simp add: message_eval reader_eval)

text \<open>The same for every message that decodes.\<close>

lemma deserialize_ports_of_header:
  assumes "spc_deserialize mach_msg = Some (Inr (Some msg))"
  shows "name (remote_port msg) = msgh_remote_port (header mach_msg)"
    and "name (local_port msg) = msgh_remote_port (header mach_msg)"
    and "type (remote_port msg) = MACH_MSGH_BITS_REMOTE (msgh_bits (header mach_msg))"
    and "type (local_port msg) = MACH_MSGH_BITS_LOCAL (msgh_bits (header mach_msg))"
  using assms
  by (auto simp add: spc_deserialize_def spc_deserialize_depth_def Let_def
        split: if_splits sum.splits option.splits prod.splits spc_value.splits)

text \<open>
  Claim C3. \<open>spc_deserialize_value\<close> has the cases \<open>SPC_TYPE_SEND_PORT\<close> and
  \<open>SPC_TYPE_RECV_PORT\<close> and none for \<open>SPC_TYPE_FD\<close>, which \<open>spc_serialize_value\<close>
  writes: a record with the tag \<open>SPC_TYPE_FD\<close> reaches the default case and the
  process exits, although a port is there to be pulled.
\<close>

theorem deserialize_value_fd_at_input:
  "spc_deserialize_value 1
     \<lparr>r_mem = [0x00, 0xb0, 0x00, 0x00], r_end = 4, r_ptr = 0, r_next_port = 0,
      r_ports = [\<lparr>name = 0x1503, type = 17\<rparr>]\<rparr>
   = Some (Inl (Exit_unsupported_value_type SPC_TYPE_FD))"
  by (simp add: reader_eval)

text \<open>
  The records with the other two port tags consume the four bytes of the tag and pull
  the next port.
\<close>

lemma deserialize_value_port_tags:
  assumes "r_ptr r + 4 \<le> r_end r" and "r_next_port r < length (r_ports r)"
  shows "take 4 (drop (r_ptr r) (r_mem r)) = uint32_bytes SPC_TYPE_SEND_PORT \<Longrightarrow>
         spc_deserialize_value (Suc d) r
           = Some (Inr (SPC_SEND_PORT (r_ports r ! r_next_port r),
                        r\<lparr>r_ptr := r_ptr r + 4, r_next_port := r_next_port r + 1\<rparr>))"
    and "take 4 (drop (r_ptr r) (r_mem r)) = uint32_bytes SPC_TYPE_RECV_PORT \<Longrightarrow>
         spc_deserialize_value (Suc d) r
           = Some (Inr (SPC_RECV_PORT (r_ports r ! r_next_port r),
                        r\<lparr>r_ptr := r_ptr r + 4, r_next_port := r_next_port r + 1\<rparr>))"
  using assms
  by (simp_all add: spc_deserialize_value.simps spc_read_uint32_def spc_read_def
        spc_reader_next_port_def SPC_TYPE_defs)

text \<open>
  Claim C6. The serializer emits one descriptor per port-typed value, in the order of
  the walk (\<open>spc_serialize_eq\<close>, where \<open>items_ports\<close> is the walk). The decoder does
  not assign a port to a record with the tag \<open>SPC_TYPE_FD\<close>: the message below is
  what \<open>spc_serialize\<close> returns for the content \<open>{"f": FD}\<close>, with one descriptor for
  the port, and decoding it ends in the default case of \<open>spc_deserialize_value\<close>.
\<close>

theorem deserialize_serialized_fd_at_input:
  "spc_serialize
      \<lparr>remote_port = \<lparr>name = 0x103, type = 19\<rparr>, local_port = \<lparr>name = 0x207, type = 21\<rparr>,
       msg_id = 0, content = (1, [([0x66], SPC_FD \<lparr>name = 0x1503, type = 17\<rparr>)])\<rparr>
   = \<lparr>header = \<lparr>msgh_bits = 0x80001513, msgh_size = 68, msgh_remote_port = 0x103,
                  msgh_local_port = 0x207, msgh_id = 0\<rparr>,
       buf = [0x01, 0x00, 0x00, 0x00,
              0x03, 0x15, 0x00, 0x00,  0x00, 0x00, 0x00, 0x00,  0x00, 0x00, 0x11, 0x00,
              0x43, 0x50, 0x58, 0x40,  0x05, 0x00, 0x00, 0x00,
              0x00, 0xf0, 0x00, 0x00,  0x0c, 0x00, 0x00, 0x00,  0x01, 0x00, 0x00, 0x00,
              0x66, 0x00, 0x00, 0x00,  0x00, 0xb0, 0x00, 0x00]\<rparr>
   \<and> spc_deserialize
     \<lparr>header = \<lparr>msgh_bits = 0x80001513, msgh_size = 68, msgh_remote_port = 0x103,
                  msgh_local_port = 0x207, msgh_id = 0\<rparr>,
       buf = [0x01, 0x00, 0x00, 0x00,
              0x03, 0x15, 0x00, 0x00,  0x00, 0x00, 0x00, 0x00,  0x00, 0x00, 0x11, 0x00,
              0x43, 0x50, 0x58, 0x40,  0x05, 0x00, 0x00, 0x00,
              0x00, 0xf0, 0x00, 0x00,  0x0c, 0x00, 0x00, 0x00,  0x01, 0x00, 0x00, 0x00,
              0x66, 0x00, 0x00, 0x00,  0x00, 0xb0, 0x00, 0x00]\<rparr>
   = Some (Inl (Exit_unsupported_value_type SPC_TYPE_FD))"
  by (rule conjI) (rule serialize_fd_message, rule deserialize_fd_message)

text \<open>
  Claim C7. \<open>spc_reader_next_port\<close> does what the claim says (the lemma below), and a
  record with the tag \<open>SPC_TYPE_SEND_PORT\<close> or \<open>SPC_TYPE_RECV_PORT\<close> in excess of
  the descriptors decodes to the null port. A record with the tag \<open>SPC_TYPE_FD\<close>
  never reaches \<open>spc_reader_next_port\<close>: the first message below has the content
  \<open>{"f": FD}\<close> and no descriptor, and the process exits where the claim has the
  null port; the second message has the tag \<open>SPC_TYPE_SEND_PORT\<close> in its place and
  decodes to the null port.
\<close>

theorem deserialize_fd_without_descriptor_at_input:
  "spc_deserialize
     \<lparr>header = \<lparr>msgh_bits = 0x1513, msgh_size = 52, msgh_remote_port = 0x103,
                 msgh_local_port = 0x207, msgh_id = 0\<rparr>,
      buf = [0x43, 0x50, 0x58, 0x40,  0x05, 0x00, 0x00, 0x00,
             0x00, 0xf0, 0x00, 0x00,  0x0c, 0x00, 0x00, 0x00,  0x01, 0x00, 0x00, 0x00,
             0x66, 0x00, 0x00, 0x00,  0x00, 0xb0, 0x00, 0x00]\<rparr>
   = Some (Inl (Exit_unsupported_value_type SPC_TYPE_FD))
   \<and> spc_deserialize
     \<lparr>header = \<lparr>msgh_bits = 0x1513, msgh_size = 52, msgh_remote_port = 0x103,
                 msgh_local_port = 0x207, msgh_id = 0\<rparr>,
      buf = [0x43, 0x50, 0x58, 0x40,  0x05, 0x00, 0x00, 0x00,
             0x00, 0xf0, 0x00, 0x00,  0x0c, 0x00, 0x00, 0x00,  0x01, 0x00, 0x00, 0x00,
             0x66, 0x00, 0x00, 0x00,  0x00, 0xd0, 0x00, 0x00]\<rparr>
   = Some (Inr (Some
       \<lparr>remote_port = \<lparr>name = 0x103, type = 0x13\<rparr>,
        local_port = \<lparr>name = 0x103, type = 0x15\<rparr>,
        msg_id = 0, content = (1, [([0x66], SPC_SEND_PORT SPC_NULL_PORT)])\<rparr>))"
  by (simp add: message_eval reader_eval)

lemma reader_next_port:
  "r_next_port r < length (r_ports r) \<Longrightarrow>
     spc_reader_next_port r = (r_ports r ! r_next_port r, r\<lparr>r_next_port := r_next_port r + 1\<rparr>)"
  "length (r_ports r) \<le> r_next_port r \<Longrightarrow> spc_reader_next_port r = (SPC_NULL_PORT, r)"
  "name SPC_NULL_PORT = 0"
  by (simp_all add: spc_reader_next_port_def SPC_NULL_PORT_def)

text \<open>
  Claim C8, as amended. For every reader state and every read of \<open>n\<close> bytes for which
  cursor + \<open>n\<close> exceeds the message end, \<open>spc_read\<close> calls \<open>abort()\<close>: the process
  ends there, and so do the typed reads, the padded read and the decoding of a value
  that start at such a cursor. No error is returned to the caller.
\<close>

theorem spc_read_out_of_bounds_aborts:
  "(r_end r < r_ptr r + n \<longrightarrow> spc_read r n = Inl Abort_OOB_read)
   \<and> (r_end r < r_ptr r + (n + (4 - n mod 4) mod 4) \<longrightarrow>
        spc_read_padded r n = Inl Abort_OOB_read)
   \<and> (r_end r < r_ptr r + 8 \<longrightarrow>
        spc_read_uint64 r = Inl Abort_OOB_read \<and> spc_read_int64 r = Inl Abort_OOB_read
        \<and> spc_read_double r = Inl Abort_OOB_read)
   \<and> (r_end r < r_ptr r + 4 \<longrightarrow>
        spc_read_uint32 r = Inl Abort_OOB_read
        \<and> spc_deserialize_value (Suc d) r = Some (Inl Abort_OOB_read)
        \<and> spc_deserialize_array d r = Some (Inl Abort_OOB_read)
        \<and> spc_deserialize_dict d r = Some (Inl Abort_OOB_read))"
  by (simp add: spc_read_def spc_read_padded_def spc_read_uint64_def spc_read_int64_def
        spc_read_double_def spc_read_uint32_def spc_deserialize_value.simps
        spc_deserialize_array.simps spc_deserialize_dict.simps Let_def)

theorem spc_read_out_of_bounds_aborts_witness:
  "r_end \<lparr>r_mem = [1, 2, 3], r_end = 3, r_ptr = 0, r_next_port = 0, r_ports = []\<rparr>
     < r_ptr \<lparr>r_mem = [1, 2, 3], r_end = 3, r_ptr = 0, r_next_port = 0, r_ports = []\<rparr> + 4
   \<and> spc_read \<lparr>r_mem = [1, 2, 3], r_end = 3, r_ptr = 0, r_next_port = 0, r_ports = []\<rparr> 4
       = Inl Abort_OOB_read
   \<and> spc_read_uint32 \<lparr>r_mem = [1, 2, 3], r_end = 3, r_ptr = 0, r_next_port = 0, r_ports = []\<rparr>
       = Inl Abort_OOB_read
   \<and> spc_deserialize_value (Suc 0)
         \<lparr>r_mem = [1, 2, 3], r_end = 3, r_ptr = 0, r_next_port = 0, r_ports = []\<rparr>
       = Some (Inl Abort_OOB_read)"
  using spc_read_out_of_bounds_aborts
          [of "\<lparr>r_mem = [1, 2, 3], r_end = 3, r_ptr = 0, r_next_port = 0, r_ports = []\<rparr>" 4 0]
  by simp

text \<open>
  The counterexample: the message with the content \<open>{"k": "v"}\<close>, without its last
  byte. The decoder finds the NUL of the string, asks for the four bytes of the padded
  string where three are left, and \<open>spc_read\<close> aborts.
\<close>

theorem truncated_message_aborts:
  "spc_deserialize
     \<lparr>header = \<lparr>msgh_bits = 0, msgh_size = 59, msgh_remote_port = 0x103,
                  msgh_local_port = 0x207, msgh_id = 0\<rparr>,
       buf = [0x43, 0x50, 0x58, 0x40,  0x05, 0x00, 0x00, 0x00,
              0x00, 0xf0, 0x00, 0x00,  0x14, 0x00, 0x00, 0x00,  0x01, 0x00, 0x00, 0x00,
              0x6b, 0x00, 0x00, 0x00,
              0x00, 0x90, 0x00, 0x00,  0x02, 0x00, 0x00, 0x00,  0x76, 0x00, 0x00]\<rparr>
   = Some (Inl Abort_OOB_read)"
  by (simp add: message_eval reader_eval)

text \<open>
  Claim C9. For the id 71 the source builds the dictionary of the claim, prints
  \<open>Connection interrupted\<close> and, at a \<open>TODO\<close>, calls \<open>exit(-1)\<close>: nothing is
  returned to the caller. No byte of the payload is parsed.
\<close>

theorem deserialize_connection_interrupted_at_input:
  "spc_deserialize
     \<lparr>header = \<lparr>msgh_bits = 0, msgh_size = 24, msgh_remote_port = 0x103,
                 msgh_local_port = 0x207, msgh_id = 71\<rparr>,
      buf = []\<rparr>
   = Some (Inl Exit_connection_interrupted)"
  by (simp add: message_eval)

lemma deserialize_connection_interrupted:
  "msgh_id (header mach_msg) = MSGID_CONNECTION_INTERRUPTED \<Longrightarrow>
   spc_deserialize mach_msg = Some (Inl Exit_connection_interrupted)"
  by (simp add: spc_deserialize_def spc_deserialize_depth_def)

end
